theory Spec2Isabelle
  imports Complex_Main "HOL-Library.AList"
begin

section \<open>JavaScript values\<close>

text \<open>
  The application keeps one document, a tree of JavaScript values that comes out of
  \<^verbatim>\<open>JSON.parse\<close> and is edited in place. A number is modelled as a real (the finite
  doubles are rationals; rounding, NaN and the infinities are outside the model, and
  \<^verbatim>\<open>Number.isFinite\<close> holds of every \<open>Num\<close>). An object is the list of its own
  properties in insertion order. An array carries its elements and the named properties
  that an assignment such as \<^verbatim>\<open>arr.profileId = pid\<close> adds to it.
\<close>

datatype jsv =
    Undefined
  | Null
  | Bool bool
  | Num real
  | Str string
  | Arr "jsv list" "(string \<times> jsv) list"
  | Obj "(string \<times> jsv) list"

datatype error = TypeError

definition bnd :: "error + 'a \<Rightarrow> ('a \<Rightarrow> error + 'b) \<Rightarrow> error + 'b" where
  "bnd m f = (case m of Inl e \<Rightarrow> Inl e | Inr x \<Rightarrow> f x)"

text \<open>ToBoolean.\<close>

fun truthy :: "jsv \<Rightarrow> bool" where
  "truthy Undefined = False"
| "truthy Null = False"
| "truthy (Bool b) = b"
| "truthy (Num r) = (r \<noteq> 0)"
| "truthy (Str s) = (s \<noteq> [])"
| "truthy (Arr xs ps) = True"
| "truthy (Obj ps) = True"

text \<open>
  \<^verbatim>\<open>a === b\<close>. Two objects are equal only when they are the same reference; the values of
  a document tree are distinct references, so the model answers False for them. It is exact
  whenever one operand is a primitive.
\<close>

fun strict_eq :: "jsv \<Rightarrow> jsv \<Rightarrow> bool" where
  "strict_eq Undefined Undefined = True"
| "strict_eq Null Null = True"
| "strict_eq (Bool a) (Bool b) = (a = b)"
| "strict_eq (Num a) (Num b) = (a = b)"
| "strict_eq (Str a) (Str b) = (a = b)"
| "strict_eq _ _ = False"

definition lookup :: "(string \<times> jsv) list \<Rightarrow> string \<Rightarrow> jsv" where
  "lookup ps k = (case map_of ps k of Some v \<Rightarrow> v | None \<Rightarrow> Undefined)"

definition nullish :: "jsv \<Rightarrow> bool" where
  "nullish v = (v = Undefined \<or> v = Null)"

text \<open>
  The value of \<^verbatim>\<open>v.k\<close> when \<open>v\<close> is neither \<^verbatim>\<open>undefined\<close> nor \<^verbatim>\<open>null\<close>, for a
  property name \<open>k\<close> that is neither \<^verbatim>\<open>length\<close>, an array index nor a name on a built-in
  prototype (every name the program reads this way is such a name): the own property of an
  object or array, \<^verbatim>\<open>undefined\<close> on a number, string or boolean.
\<close>

fun field :: "jsv \<Rightarrow> string \<Rightarrow> jsv" where
  "field (Obj ps) k = lookup ps k"
| "field (Arr xs ps) k = lookup ps k"
| "field v k = Undefined"

text \<open>\<^verbatim>\<open>v.k\<close>: a TypeError on \<^verbatim>\<open>undefined\<close> and \<^verbatim>\<open>null\<close>.\<close>

definition get_prop :: "jsv \<Rightarrow> string \<Rightarrow> error + jsv" where
  "get_prop v k = (if nullish v then Inl TypeError else Inr (field v k))"

text \<open>
  \<^verbatim>\<open>v.k = x\<close> on a \<open>v\<close> that is neither \<^verbatim>\<open>undefined\<close> nor \<^verbatim>\<open>null\<close>, returning the
  updated \<open>v\<close>: an existing property keeps its place, a new one goes last. The script has
  no \<^verbatim>\<open>'use strict'\<close> directive, so an assignment to a property of a number, string or
  boolean is silently dropped.
\<close>

fun with_field :: "jsv \<Rightarrow> string \<Rightarrow> jsv \<Rightarrow> jsv" where
  "with_field (Obj ps) k x = Obj (AList.update k x ps)"
| "with_field (Arr xs ps) k x = Arr xs (AList.update k x ps)"
| "with_field v k x = v"

text \<open>\<^verbatim>\<open>v?.k\<close>\<close>

definition opt_chain :: "jsv \<Rightarrow> string \<Rightarrow> jsv" where
  "opt_chain v k = (if nullish v then Undefined else field v k)"

fun isArray :: "jsv \<Rightarrow> bool" where
  "isArray (Arr xs ps) = True"
| "isArray _ = False"

fun elems :: "jsv \<Rightarrow> jsv list" where
  "elems (Arr xs ps) = xs"
| "elems _ = []"

text \<open>
  The receiver of an array method in \<^verbatim>\<open>(v || []).reduce(...)\<close>: the elements of an array,
  none for a falsy \<open>v\<close>, a TypeError for any other value (it has no such method).
\<close>

definition or_empty :: "jsv \<Rightarrow> error + jsv list" where
  "or_empty v = (if \<not> truthy v then Inr [] else if isArray v then Inr (elems v) else Inl TypeError)"

section \<open>Scoring\<close>

text \<open>
  \<^verbatim>\<open>safeNumber(v)\<close> is \<^verbatim>\<open>Number(v)\<close> when that is finite and 0 otherwise. ToNumber of a
  string or of an object goes through the numeric-literal grammar and \<^verbatim>\<open>toString\<close>; it is
  the parameter \<open>co\<close> (None when the result is NaN or infinite).
\<close>

fun safeNumber :: "(jsv \<Rightarrow> real option) \<Rightarrow> jsv \<Rightarrow> real" where
  "safeNumber co (Num r) = r"
| "safeNumber co Undefined = 0"
| "safeNumber co Null = 0"
| "safeNumber co (Bool b) = (if b then 1 else 0)"
| "safeNumber co v = (case co v of Some r \<Rightarrow> r | None \<Rightarrow> 0)"

text \<open>\<^verbatim>\<open>xs.reduce((s,n) => s + safeNumber(n), 0)\<close>\<close>

definition reduce_safe :: "(jsv \<Rightarrow> real option) \<Rightarrow> jsv list \<Rightarrow> real" where
  "reduce_safe co xs = foldl (\<lambda>s n. s + safeNumber co n) 0 xs"

text \<open>\<^verbatim>\<open>arr.reduce((s,r) => s + safeNumber(r.score), 0)\<close>; \<^verbatim>\<open>r.score\<close> throws on a null row.\<close>

fun reduce_score :: "(jsv \<Rightarrow> real option) \<Rightarrow> real \<Rightarrow> jsv list \<Rightarrow> error + real" where
  "reduce_score co s [] = Inr s"
| "reduce_score co s (r # rs) =
     bnd (get_prop r ''score'') (\<lambda>sc. reduce_score co (s + safeNumber co sc) rs)"

definition animal_sum :: "(jsv \<Rightarrow> real option) \<Rightarrow> jsv \<Rightarrow> error + real" where
  "animal_sum co a = (if isArray a then reduce_score co 0 (elems a) else Inl TypeError)"

text \<open>
  \<^verbatim>\<open>sum(arr)\<close> and \<^verbatim>\<open>meanOrNull(arr)\<close>: both map \<^verbatim>\<open>safeNumber\<close> over \<^verbatim>\<open>arr || []\<close> and
  keep the finite results, which is all of them.
\<close>

definition sum_js :: "(jsv \<Rightarrow> real option) \<Rightarrow> jsv \<Rightarrow> error + real" where
  "sum_js co arr = bnd (or_empty arr) (\<lambda>vs. Inr (foldl (+) 0 (map (safeNumber co) vs)))"

definition meanOrNull :: "(jsv \<Rightarrow> real option) \<Rightarrow> jsv \<Rightarrow> error + real option" where
  "meanOrNull co arr = bnd (or_empty arr) (\<lambda>vs.
     let xs = map (safeNumber co) vs in
     if length xs = 0 then Inr None else Inr (Some (foldl (+) 0 xs / real (length xs))))"

record totals =
  bull10Sum :: "real option"
  bull15Sum :: "real option"
  bull10Avg :: "real option"
  bull15Avg :: "real option"
  bullTotalSum :: "real option"
  animalTotal :: "real option"

text \<open>The body of \<^verbatim>\<open>if (session.bullseye) { ... }\<close> in \<^verbatim>\<open>practiceTotals\<close>.\<close>

definition bullseye_block ::
  "(jsv \<Rightarrow> real option) \<Rightarrow> jsv
    \<Rightarrow> error + (real option \<times> real option \<times> real option \<times> real option \<times> real option)" where
  "bullseye_block co b =
     bnd (get_prop b ''m10'') (\<lambda>a10.
     bnd (get_prop b ''m15'') (\<lambda>a15.
     let m10 = (if isArray a10 then a10 else Arr [] []);
         m15 = (if isArray a15 then a15 else Arr [] []) in
     bnd (if length (elems m10) \<noteq> 0 then bnd (sum_js co m10) (\<lambda>s. Inr (Some s)) else Inr None) (\<lambda>s10.
     bnd (if length (elems m15) \<noteq> 0 then bnd (sum_js co m15) (\<lambda>s. Inr (Some s)) else Inr None) (\<lambda>s15.
     bnd (if length (elems m10) \<noteq> 0 then meanOrNull co m10 else Inr None) (\<lambda>avg10.
     bnd (if length (elems m15) \<noteq> 0 then meanOrNull co m15 else Inr None) (\<lambda>avg15.
     bnd (sum_js co m10) (\<lambda>t10.
     bnd (sum_js co m15) (\<lambda>t15.
     Inr (s10, s15, avg10, avg15, Some (t10 + t15))))))))))"

definition practiceTotals :: "(jsv \<Rightarrow> real option) \<Rightarrow> jsv \<Rightarrow> error + totals" where
  "practiceTotals co session =
     bnd (get_prop session ''bullseye'') (\<lambda>b.
     bnd (if truthy b then bullseye_block co b else Inr (None, None, None, None, None))
       (\<lambda>(s10, s15, avg10, avg15, tot).
     bnd (get_prop session ''animal'') (\<lambda>a.
     bnd (if truthy a then bnd (animal_sum co a) (\<lambda>s. Inr (Some s)) else Inr None) (\<lambda>atot.
     Inr \<lparr> bull10Sum = s10, bull15Sum = s15, bull10Avg = avg10, bull15Avg = avg15,
           bullTotalSum = tot, animalTotal = atot \<rparr>))))"

definition array_len :: "jsv \<Rightarrow> real" where
  "array_len v = (if isArray v then real (length (elems v)) else 0)"

definition competitionMax :: "jsv \<Rightarrow> error + real option" where
  "competitionMax c =
     bnd (get_prop c ''round'') (\<lambda>rnd.
     if strict_eq rnd (Str ''animal'') then Inr None
     else if strict_eq rnd (Str ''bullseye'') then
       bnd (get_prop c ''category'') (\<lambda>category.
       let cat = (if truthy category then category else Str ''adult'') in
       if strict_eq cat (Str ''cub'') \<or> strict_eq cat (Str ''beginner'') then Inr (Some 200)
       else if strict_eq cat (Str ''junior'') \<or> strict_eq cat (Str ''senior'')
               \<or> strict_eq cat (Str ''adult'') then Inr (Some 600)
       else
         bnd (get_prop c ''bullseye'') (\<lambda>b.
         if strict_eq (opt_chain b ''format'') (Str ''legacy'') then
           bnd (get_prop b ''m10'') (\<lambda>m10.
           bnd (get_prop b ''m15'') (\<lambda>m15.
           Inr (Some ((array_len m10 + array_len m15) * 50))))
         else Inr None))
     else Inr None)"

text \<open>One set of a \<^verbatim>\<open>2sets\<close> result inside the outer \<^verbatim>\<open>reduce\<close>.\<close>

fun reduce_sets :: "(jsv \<Rightarrow> real option) \<Rightarrow> real \<Rightarrow> jsv list \<Rightarrow> error + real" where
  "reduce_sets co sum0 [] = Inr sum0"
| "reduce_sets co sum0 (st # sts) =
     bnd (get_prop st ''m10'') (\<lambda>a10.
     bnd (or_empty a10) (\<lambda>v10.
     bnd (get_prop st ''m15'') (\<lambda>a15.
     bnd (or_empty a15) (\<lambda>v15.
     reduce_sets co (sum0 + reduce_safe co v10 + reduce_safe co v15) sts))))"

definition competitionTotal :: "(jsv \<Rightarrow> real option) \<Rightarrow> jsv \<Rightarrow> error + real" where
  "competitionTotal co c =
     bnd (get_prop c ''round'') (\<lambda>rnd.
     bnd (get_prop c ''bullseye'') (\<lambda>b.
     bnd (if strict_eq rnd (Str ''bullseye'') \<and> truthy b then
            bnd (get_prop b ''format'') (\<lambda>fmt.
            if strict_eq fmt (Str ''4x10'') then
              bnd (get_prop b ''m10'') (\<lambda>a10.
              bnd (or_empty a10) (\<lambda>v10. Inr (Some (reduce_safe co v10))))
            else if strict_eq fmt (Str ''2sets'') then
              bnd (get_prop b ''sets'') (\<lambda>ss.
              bnd (or_empty ss) (\<lambda>sts.
              bnd (reduce_sets co 0 sts) (\<lambda>s. Inr (Some s))))
            else if strict_eq fmt (Str ''legacy'') then
              bnd (get_prop b ''m10'') (\<lambda>a10.
              bnd (or_empty a10) (\<lambda>v10.
              bnd (get_prop b ''m15'') (\<lambda>a15.
              bnd (or_empty a15) (\<lambda>v15.
              Inr (Some (reduce_safe co v10 + reduce_safe co v15))))))
            else Inr None)
          else Inr None) (\<lambda>early.
     case early of
       Some t \<Rightarrow> Inr t
     | None \<Rightarrow>
         bnd (get_prop c ''animal'') (\<lambda>a.
         if strict_eq rnd (Str ''animal'') \<and> truthy a then animal_sum co a
         else Inr 0))))"

text \<open>
  The shapes of the data model that the scoring theorems speak of: an array of numbers, one
  set of a \<^verbatim>\<open>2sets\<close> result, one row of an animal round.
\<close>

definition num_array :: "jsv \<Rightarrow> real list \<Rightarrow> bool" where
  "num_array v xs = (isArray v \<and> elems v = map Num xs)"

definition is_set :: "jsv \<Rightarrow> real list \<times> real list \<Rightarrow> bool" where
  "is_set s p = (num_array (field s ''m10'') (fst p) \<and> num_array (field s ''m15'') (snd p))"

definition is_row :: "jsv \<Rightarrow> real \<Rightarrow> bool" where
  "is_row r sc = (\<not> nullish r \<and> field r ''score'' = Num sc)"

section \<open>Statistics\<close>

definition mean :: "real list \<Rightarrow> real" where
  "mean arr = (if length arr \<noteq> 0 then foldl (+) 0 arr / real (length arr) else 0)"

definition linearSlope :: "real list \<Rightarrow> real option" where
  "linearSlope vals =
     (let n = length vals in
      if n < 2 then None
      else
        let xs = map real [0..<n];
            mx = mean xs;
            my = mean vals;
            (num, den) = foldl (\<lambda>(num, den) i.
                (num + (xs ! i - mx) * (vals ! i - my), den + (xs ! i - mx) * (xs ! i - mx)))
              (0, 0) [0..<n]
        in if den \<noteq> 0 then Some (num / den) else None)"

text \<open>
  What the specification means by the ordinary-least-squares slope of \<open>ys\<close> against the
  index positions: the slope of a line \<open>a + b * i\<close> whose sum of squared residuals is least.
\<close>

definition sse :: "real list \<Rightarrow> real \<Rightarrow> real \<Rightarrow> real" where
  "sse ys a b = (\<Sum>i<length ys. (ys ! i - (a + b * real i))\<^sup>2)"

definition is_ols_slope :: "real list \<Rightarrow> real \<Rightarrow> bool" where
  "is_ols_slope ys b = (\<exists>a. \<forall>a' b'. sse ys a b \<le> sse ys a' b')"

text \<open>The two sums that \<^verbatim>\<open>linearSlope\<close> accumulates.\<close>

definition Sxx :: "nat \<Rightarrow> real" where
  "Sxx n = (\<Sum>i<n. (real i - mean (map real [0..<n]))\<^sup>2)"

definition Sxy :: "real list \<Rightarrow> real" where
  "Sxy ys = (\<Sum>i<length ys. (real i - mean (map real [0..<length ys])) * (ys ! i - mean ys))"

section \<open>The document: defaults, load, normalization\<close>

text \<open>
  \<^verbatim>\<open>uid()\<close> mixes \<^verbatim>\<open>Math.random()\<close> with the clock and \<^verbatim>\<open>new Date().toISOString()\<close>
  reads the clock; \<open>uid e k\<close> and \<open>iso e k\<close> are what the k-th call of a run returns.
\<close>

record env =
  uid :: "nat \<Rightarrow> string"
  iso :: "nat \<Rightarrow> string"

definition newProfile :: "env \<Rightarrow> nat \<Rightarrow> jsv" where
  "newProfile e k =
     Obj [(''id'', Str (uid e k)), (''name'', Str ''Archer 1''), (''createdAt'', Str (iso e k))]"

definition defaultSettings :: jsv where
  "defaultSettings = Obj [(''animalScoring'', Str ''nasp3d'')]"

definition defaultState :: "env \<Rightarrow> nat \<Rightarrow> jsv" where
  "defaultState e k =
     Obj [(''profiles'', Arr [newProfile e k] []),
          (''activeProfileId'', Str (uid e k)),
          (''practice'', Arr [] []),
          (''competitions'', Arr [] []),
          (''aimMaps'', Arr [] []),
          (''settings'', defaultSettings)]"

text \<open>A digit below 16, and the decimal name of an array index.\<close>

definition digit :: "nat \<Rightarrow> char" where
  "digit n = ''0123456789abcdef'' ! n"

function show_nat :: "nat \<Rightarrow> string" where
  "show_nat n = (if n < 10 then [digit n] else show_nat (n div 10) @ [digit (n mod 10)])"
  by pat_completeness auto
termination
  by (relation "measure id") auto

declare show_nat.simps [simp del]

text \<open>
  The own enumerable properties that \<^verbatim>\<open>Object.assign\<close> copies from a source: those of
  an object, the indices and then the named properties of an array, the characters of a
  string, none of any other value. (Index-like names of an object are not moved to the
  front.)
\<close>

fun own_props :: "jsv \<Rightarrow> (string \<times> jsv) list" where
  "own_props (Obj ps) = ps"
| "own_props (Arr xs ps) = zip (map show_nat [0..<length xs]) xs @ ps"
| "own_props (Str s) = zip (map show_nat [0..<length s]) (map (\<lambda>c. Str [c]) s)"
| "own_props v = []"

definition assign :: "jsv \<Rightarrow> jsv \<Rightarrow> jsv" where
  "assign target source = foldl (\<lambda>t (k, v). with_field t k v) target (own_props source)"

text \<open>\<^verbatim>\<open>Array.isArray(v) ? v : []\<close>\<close>

definition coerce_list :: "jsv \<Rightarrow> jsv" where
  "coerce_list v = (if isArray v then v else Arr [] [])"

text \<open>\<^verbatim>\<open>!Array.isArray(st.profiles) || st.profiles.length === 0\<close>, and the branch it guards.\<close>

definition no_profiles :: "jsv \<Rightarrow> bool" where
  "no_profiles v = (\<not> isArray v \<or> length (elems v) = 0)"

definition synth_profiles :: "env \<Rightarrow> nat \<Rightarrow> jsv \<Rightarrow> jsv" where
  "synth_profiles e k st =
     (if no_profiles (field st ''profiles'') then
        with_field (with_field st ''profiles'' (Arr [newProfile e k] []))
          ''activeProfileId'' (Str (uid e k))
      else st)"

text \<open>\<^verbatim>\<open>st.profiles[0].id\<close> on an array \<^verbatim>\<open>st.profiles\<close>: a TypeError when there is no first element
  or it is \<^verbatim>\<open>null\<close>.\<close>

definition first_id :: "jsv \<Rightarrow> error + jsv" where
  "first_id st = (case elems (field st ''profiles'') of [] \<Rightarrow> Inl TypeError | p # ps \<Rightarrow> get_prop p ''id'')"

text \<open>\<^verbatim>\<open>if (!st.activeProfileId) st.activeProfileId = st.profiles[0].id;\<close>\<close>

definition default_active :: "jsv \<Rightarrow> error + jsv" where
  "default_active st =
     (if \<not> truthy (field st ''activeProfileId'') then
        bnd (first_id st) (\<lambda>i. Inr (with_field st ''activeProfileId'' i))
      else Inr st)"

text \<open>\<^verbatim>\<open>r => { if (r && !r.profileId) r.profileId = pid; }\<close>\<close>

definition backfill :: "jsv \<Rightarrow> jsv \<Rightarrow> jsv" where
  "backfill pid r = (if truthy r \<and> \<not> truthy (field r ''profileId'') then with_field r ''profileId'' pid else r)"

text \<open>\<^verbatim>\<open>st.k.forEach(f)\<close> for a callback that edits each element in place; \<^verbatim>\<open>st.k\<close> is an array.\<close>

fun map_elems :: "(jsv \<Rightarrow> jsv) \<Rightarrow> jsv \<Rightarrow> jsv" where
  "map_elems f (Arr xs ps) = Arr (map f xs) ps"
| "map_elems f v = v"

definition for_each :: "string \<Rightarrow> (jsv \<Rightarrow> jsv) \<Rightarrow> jsv \<Rightarrow> jsv" where
  "for_each k f st = with_field st k (map_elems f (field st k))"

text \<open>\<^verbatim>\<open>typeof v === 'number'\<close>\<close>

fun is_number :: "jsv \<Rightarrow> bool" where
  "is_number (Num r) = True"
| "is_number v = False"

text \<open>
  The two migrations of older shapes, one callback each; \<open>bullseye_lists\<close> is the four
  statements on \<^verbatim>\<open>s.bullseye\<close> in the first.
\<close>

definition bullseye_lists :: "jsv \<Rightarrow> jsv" where
  "bullseye_lists b0 =
     (let b1 = (if is_number (field b0 ''m10'') then with_field b0 ''m10'' (Arr [field b0 ''m10''] []) else b0);
          b2 = (if is_number (field b1 ''m15'') then with_field b1 ''m15'' (Arr [field b1 ''m15''] []) else b1);
          b3 = (if \<not> isArray (field b2 ''m10'') then with_field b2 ''m10'' (Arr [] []) else b2)
      in if \<not> isArray (field b3 ''m15'') then with_field b3 ''m15'' (Arr [] []) else b3)"

definition migrate_practice :: "jsv \<Rightarrow> jsv" where
  "migrate_practice s =
     (if truthy s \<and> truthy (field s ''bullseye'')
      then with_field s ''bullseye'' (bullseye_lists (field s ''bullseye''))
      else s)"

definition migrate_comp :: "jsv \<Rightarrow> jsv" where
  "migrate_comp c =
     (if truthy c \<and> strict_eq (field c ''round'') (Str ''bullseye'') \<and> truthy (field c ''bullseye'') then
        let b = field c ''bullseye'' in
        if is_number (field b ''m10'') \<or> is_number (field b ''m15'') then
          let c1 = with_field c ''bullseye''
                (Obj [(''format'', Str ''legacy''),
                      (''m10'', Arr [if is_number (field b ''m10'') then field b ''m10'' else Num 0] []),
                      (''m15'', Arr [if is_number (field b ''m15'') then field b ''m15'' else Num 0] [])])
          in if \<not> truthy (field c1 ''category'') then with_field c1 ''category'' (Str ''adult'') else c1
        else c
      else c)"

text \<open>
  The body of the \<^verbatim>\<open>try\<close> block of \<^verbatim>\<open>loadState\<close> after \<^verbatim>\<open>JSON.parse\<close>, in three parts.
  First the merge over the defaults, the coercion of the three collections to lists and the
  synthesis of a profile; the two calls of \<^verbatim>\<open>defaultState()\<close> are calls 0 and 1 of
  \<^verbatim>\<open>uid()\<close>, the synthesized profile is call 2. Reading \<^verbatim>\<open>parsed.settings\<close> throws when
  \<^verbatim>\<open>parsed\<close> is \<^verbatim>\<open>null\<close>.
\<close>

definition merge_defaults :: "env \<Rightarrow> jsv \<Rightarrow> error + jsv" where
  "merge_defaults e parsed =
     (let st0 = assign (defaultState e 0) parsed in
      bnd (get_prop parsed ''settings'') (\<lambda>ps.
      let st1 = with_field st0 ''settings'' (assign defaultSettings (if truthy ps then ps else Obj []));
          st2 = with_field st1 ''practice'' (coerce_list (field st1 ''practice''));
          st3 = with_field st2 ''competitions'' (coerce_list (field st2 ''competitions''));
          st4 = with_field st3 ''aimMaps'' (coerce_list (field st3 ''aimMaps''))
      in Inr (synth_profiles e 2 st4)))"

text \<open>Last the five \<^verbatim>\<open>forEach\<close> loops: the back-fill of \<^verbatim>\<open>profileId\<close> and the two migrations.\<close>

definition backfill_and_migrate :: "jsv \<Rightarrow> jsv" where
  "backfill_and_migrate st6 =
     (let pid = field st6 ''activeProfileId'';
          st7 = for_each ''practice'' (backfill pid) st6;
          st8 = for_each ''competitions'' (backfill pid) st7;
          st9 = for_each ''aimMaps'' (backfill pid) st8;
          st10 = for_each ''practice'' migrate_practice st9
      in for_each ''competitions'' migrate_comp st10)"

definition normalize_parsed :: "env \<Rightarrow> jsv \<Rightarrow> error + jsv" where
  "normalize_parsed e parsed =
     bnd (merge_defaults e parsed) (\<lambda>st5.
     bnd (default_active st5) (\<lambda>st6.
     Inr (backfill_and_migrate st6)))"

text \<open>
  What \<^verbatim>\<open>loadState\<close> makes of a parsed document: the normalized document, or a fresh default
  one when the \<^verbatim>\<open>try\<close> block throws (two \<^verbatim>\<open>defaultState()\<close> calls precede every throw).
\<close>

definition normalize_doc :: "env \<Rightarrow> jsv \<Rightarrow> jsv" where
  "normalize_doc e parsed = (case normalize_parsed e parsed of Inl err \<Rightarrow> defaultState e 2 | Inr st \<Rightarrow> st)"

text \<open>
  \<^verbatim>\<open>loadState\<close>. The storage slot is absent or holds a text; \<^verbatim>\<open>JSON.parse\<close> is the parameter
  \<open>parse\<close>, None when it throws.
\<close>

definition loadState :: "(string \<Rightarrow> jsv option) \<Rightarrow> env \<Rightarrow> string option \<Rightarrow> jsv" where
  "loadState parse e stored =
     (case stored of
        None \<Rightarrow> defaultState e 0
      | Some raw \<Rightarrow>
          if raw = [] then defaultState e 0
          else (case parse raw of
                  None \<Rightarrow> defaultState e 0
                | Some parsed \<Rightarrow> normalize_doc e parsed))"

text \<open>\<^verbatim>\<open>(state.k || []).forEach(f)\<close>\<close>

definition for_each_opt :: "string \<Rightarrow> (jsv \<Rightarrow> jsv) \<Rightarrow> jsv \<Rightarrow> error + jsv" where
  "for_each_opt k f st =
     (if \<not> truthy (field st k) then Inr st
      else if isArray (field st k) then Inr (for_each k f st)
      else Inl TypeError)"

text \<open>\<^verbatim>\<open>ensureProfiles()\<close> on the global document, its \<^verbatim>\<open>uid()\<close> being call \<open>k\<close>.\<close>

definition ensureProfiles :: "env \<Rightarrow> nat \<Rightarrow> jsv \<Rightarrow> error + jsv" where
  "ensureProfiles e k st0 =
     (let st1 = synth_profiles e k st0 in
      bnd (default_active st1) (\<lambda>st2.
      let pid = field st2 ''activeProfileId'' in
      bnd (for_each_opt ''practice'' (backfill pid) st2) (\<lambda>st3.
      bnd (for_each_opt ''competitions'' (backfill pid) st3) (\<lambda>st4.
      for_each_opt ''aimMaps'' (backfill pid) st4))))"

text \<open>
  The profile invariant of the specification: \<^verbatim>\<open>activeProfileId\<close> is the id of a member of
  \<^verbatim>\<open>profiles\<close>.
\<close>

definition active_resolves :: "jsv \<Rightarrow> bool" where
  "active_resolves st =
     list_ex (\<lambda>p. strict_eq (field p ''id'') (field st ''activeProfileId'')) (elems (field st ''profiles''))"

text \<open>\<^verbatim>\<open>activeProfileId\<close> is the id of the first profile.\<close>

definition active_is_first :: "jsv \<Rightarrow> bool" where
  "active_is_first st =
     (case elems (field st ''profiles'') of
        [] \<Rightarrow> False
      | p # ps \<Rightarrow> field st ''activeProfileId'' = field p ''id'')"

text \<open>
  What a normalized document looks like. Its own properties start with the six of the
  default document and have distinct names, its settings start with the default setting,
  its three collections are lists, it has a profile, a falsy \<^verbatim>\<open>activeProfileId\<close> is the id
  of the first profile, and no element of a collection is changed by the back-fill or by
  its migration.
\<close>

fun props :: "jsv \<Rightarrow> (string \<times> jsv) list" where
  "props (Obj ps) = ps"
| "props (Arr xs ps) = ps"
| "props v = []"

definition keys_of :: "jsv \<Rightarrow> string list" where
  "keys_of v = map fst (props v)"

fun is_obj :: "jsv \<Rightarrow> bool" where
  "is_obj (Obj ps) = True"
| "is_obj v = False"

definition starts_with :: "string list \<Rightarrow> jsv \<Rightarrow> bool" where
  "starts_with ks v = (is_obj v \<and> distinct (keys_of v) \<and> take (length ks) (keys_of v) = ks)"

definition default_keys :: "string list" where
  "default_keys = [''profiles'', ''activeProfileId'', ''practice'', ''competitions'', ''aimMaps'', ''settings'']"

definition active_ok :: "jsv \<Rightarrow> bool" where
  "active_ok st = (truthy (field st ''activeProfileId'') \<or> first_id st = Inr (field st ''activeProfileId''))"

definition normal :: "jsv \<Rightarrow> bool" where
  "normal st =
     (starts_with default_keys st
      \<and> starts_with [''animalScoring''] (field st ''settings'')
      \<and> isArray (field st ''practice'') \<and> isArray (field st ''competitions'') \<and> isArray (field st ''aimMaps'')
      \<and> \<not> no_profiles (field st ''profiles'')
      \<and> active_ok st
      \<and> (\<forall>r\<in>set (elems (field st ''practice'')).
            backfill (field st ''activeProfileId'') r = r \<and> migrate_practice r = r)
      \<and> (\<forall>r\<in>set (elems (field st ''competitions'')).
            backfill (field st ''activeProfileId'') r = r \<and> migrate_comp r = r)
      \<and> (\<forall>r\<in>set (elems (field st ''aimMaps'')). backfill (field st ''activeProfileId'') r = r))"

section \<open>Serialization\<close>

text \<open>
  \<^verbatim>\<open>JSON.stringify(value, null, gap)\<close>, after the algorithm of the language standard
  (SerializeJSONProperty, SerializeJSONObject, SerializeJSONArray, QuoteJSONString). The
  text of a number is the parameter \<open>fmt\<close>. A character of a string is a byte here.
\<close>

definition quote_char :: "char \<Rightarrow> string" where
  "quote_char c =
     (if c = CHR 0x08 then [CHR 0x5C, CHR ''b'']
      else if c = CHR 0x09 then [CHR 0x5C, CHR ''t'']
      else if c = CHR 0x0A then [CHR 0x5C, CHR ''n'']
      else if c = CHR 0x0C then [CHR 0x5C, CHR ''f'']
      else if c = CHR 0x0D then [CHR 0x5C, CHR ''r'']
      else if c = CHR 0x22 then [CHR 0x5C, CHR 0x22]
      else if c = CHR 0x5C then [CHR 0x5C, CHR 0x5C]
      else if (of_char c :: nat) < 32 then
        [CHR 0x5C, CHR ''u'', CHR ''0'', CHR ''0'', digit (of_char c div 16), digit (of_char c mod 16)]
      else [c])"

definition quote :: "string \<Rightarrow> string" where
  "quote s = CHR 0x22 # concat (map quote_char s) @ [CHR 0x22]"

fun join :: "string \<Rightarrow> string list \<Rightarrow> string" where
  "join sep [] = []"
| "join sep [x] = x"
| "join sep (x # y # zs) = x @ sep @ join sep (y # zs)"

text \<open>
  The closing step shared by objects and arrays: \<open>stepback\<close> is the indentation outside the
  brackets \<open>l\<close> and \<open>r\<close>, \<open>partial\<close> the serialized members.
\<close>

definition wrap :: "string \<Rightarrow> string \<Rightarrow> string \<Rightarrow> string \<Rightarrow> string list \<Rightarrow> string" where
  "wrap gap stepback l r partial =
     (if partial = [] then l @ r
      else if gap = [] then l @ join '','' partial @ r
      else
        let indent = stepback @ gap in
        l @ [CHR 0x0A] @ indent @ join ('','' @ [CHR 0x0A] @ indent) partial @ [CHR 0x0A] @ stepback @ r)"

fun ser :: "(real \<Rightarrow> string) \<Rightarrow> string \<Rightarrow> string \<Rightarrow> jsv \<Rightarrow> string option"
  and ser_elems :: "(real \<Rightarrow> string) \<Rightarrow> string \<Rightarrow> string \<Rightarrow> jsv list \<Rightarrow> string list"
  and ser_members :: "(real \<Rightarrow> string) \<Rightarrow> string \<Rightarrow> string \<Rightarrow> (string \<times> jsv) list \<Rightarrow> string list"
where
  "ser fmt gap ind Undefined = None"
| "ser fmt gap ind Null = Some ''null''"
| "ser fmt gap ind (Bool b) = Some (if b then ''true'' else ''false'')"
| "ser fmt gap ind (Num r) = Some (fmt r)"
| "ser fmt gap ind (Str s) = Some (quote s)"
| "ser fmt gap ind (Arr xs ps) = Some (wrap gap ind ''['' '']'' (ser_elems fmt gap (ind @ gap) xs))"
| "ser fmt gap ind (Obj ps) = Some (wrap gap ind ''{'' ''}'' (ser_members fmt gap (ind @ gap) ps))"
| "ser_elems fmt gap ind [] = []"
| "ser_elems fmt gap ind (x # xs) =
     (case ser fmt gap ind x of None \<Rightarrow> ''null'' | Some t \<Rightarrow> t) # ser_elems fmt gap ind xs"
| "ser_members fmt gap ind [] = []"
| "ser_members fmt gap ind (kv # ps) =
     (case ser fmt gap ind (snd kv) of
        None \<Rightarrow> ser_members fmt gap ind ps
      | Some t \<Rightarrow>
          (quote (fst kv) @ '':'' @ (if gap = [] then [] else '' '') @ t) # ser_members fmt gap ind ps)"

text \<open>The text that a consumer of \<^verbatim>\<open>JSON.stringify(v, null, gap)\<close> sees when it wants a string.\<close>

definition stringify :: "(real \<Rightarrow> string) \<Rightarrow> string \<Rightarrow> jsv \<Rightarrow> string" where
  "stringify fmt gap v = (case ser fmt gap [] v of Some t \<Rightarrow> t | None \<Rightarrow> ''undefined'')"

text \<open>
  A reader of JSON texts skips the white space between tokens. \<open>strip_out\<close> removes it
  outside string literals, \<open>strip_in\<close> copies the inside of a literal up to its closing quote.
\<close>

definition is_ws :: "char \<Rightarrow> bool" where
  "is_ws c = (c = CHR '' '' \<or> c = CHR 0x0A \<or> c = CHR 0x0D \<or> c = CHR 0x09)"

fun strip_out :: "string \<Rightarrow> string" and strip_in :: "string \<Rightarrow> string" where
  "strip_out [] = []"
| "strip_out (c # cs) =
     (if c = CHR 0x22 then c # strip_in cs
      else if is_ws c then strip_out cs
      else c # strip_out cs)"
| "strip_in [] = []"
| "strip_in [c] = [c]"
| "strip_in (c # d # cs) =
     (if c = CHR 0x22 then c # strip_out (d # cs)
      else if c = CHR 0x5C then c # d # strip_in cs
      else c # strip_in (d # cs))"

text \<open>
  A text without quotes and white space, a text of white space only, and the relation of a
  text \<open>t\<close> to what is left of it, \<open>t'\<close>, when the white space between its tokens goes.
\<close>

definition plain :: "string \<Rightarrow> bool" where
  "plain t = (\<forall>c\<in>set t. c \<noteq> CHR 0x22 \<and> \<not> is_ws c)"

definition blank :: "string \<Rightarrow> bool" where
  "blank t = (\<forall>c\<in>set t. is_ws c)"

definition squeezes :: "string \<Rightarrow> string \<Rightarrow> bool" where
  "squeezes t t' = (\<forall>rest. strip_out (t @ rest) = t' @ strip_out rest)"

section \<open>The event handlers\<close>

text \<open>
  What the handlers touch: the global \<^verbatim>\<open>state\<close>, the text in the storage slot, the
  messages shown with \<^verbatim>\<open>alert\<close> and the contents of the files offered for download.
  \<^verbatim>\<open>renderAll()\<close> draws from the document and writes nothing to it.
  \<^verbatim>\<open>renderProfileSelect()\<close> and \<^verbatim>\<open>renderProfilesList()\<close> first call \<^verbatim>\<open>ensureProfiles()\<close>,
  which writes to the document, and then draw. The drawing code enters the model only as
  the question whether it completes or throws.
\<close>

record world =
  state :: jsv
  slot :: "string option"
  alerts :: "string list"
  downloads :: "string list"

definition saveState :: "(real \<Rightarrow> string) \<Rightarrow> world \<Rightarrow> world" where
  "saveState fmt w = w\<lparr>slot := Some (stringify fmt [] (state w))\<rparr>"

definition exportBtn_click :: "(real \<Rightarrow> string) \<Rightarrow> world \<Rightarrow> world" where
  "exportBtn_click fmt w = w\<lparr>downloads := downloads w @ [stringify fmt ''  '' (state w)]\<rparr>"

text \<open>
  The \<^verbatim>\<open>change\<close> handler of the import input. The picker gives no file, a file whose read is
  rejected, or a file's text. \<open>import_doc\<close> is the part of the \<^verbatim>\<open>try\<close> block that builds the
  new document, None when it throws; \<open>renders\<close> says whether \<^verbatim>\<open>renderAll()\<close> completes
  on a document.
\<close>

datatype picked = NoFile | ReadRejected | FileText string

definition import_doc :: "(string \<Rightarrow> jsv option) \<Rightarrow> env \<Rightarrow> string \<Rightarrow> jsv option" where
  "import_doc parse e text =
     (case parse text of
        None \<Rightarrow> None
      | Some imported \<Rightarrow>
          let st0 = assign (defaultState e 0) imported in
          (case get_prop imported ''settings'' of
             Inl err \<Rightarrow> None
           | Inr ps \<Rightarrow>
               let st1 = with_field st0 ''settings'' (assign defaultSettings (if truthy ps then ps else Obj []));
                   st2 = with_field st1 ''practice'' (coerce_list (field imported ''practice''));
                   st3 = with_field st2 ''competitions'' (coerce_list (field imported ''competitions''));
                   st4 = with_field st3 ''aimMaps'' (coerce_list (field imported ''aimMaps''))
               in Some st4))"

definition import_failed :: string where
  "import_failed = ''Import failed: invalid JSON or incompatible format.''"

definition importFile_change ::
  "(string \<Rightarrow> jsv option) \<Rightarrow> (real \<Rightarrow> string) \<Rightarrow> (jsv \<Rightarrow> bool) \<Rightarrow> env \<Rightarrow> picked \<Rightarrow> world \<Rightarrow> world" where
  "importFile_change parse fmt renders e file w =
     (case file of
        NoFile \<Rightarrow> w
      | ReadRejected \<Rightarrow> w\<lparr>alerts := alerts w @ [import_failed]\<rparr>
      | FileText text \<Rightarrow>
          (case import_doc parse e text of
             None \<Rightarrow> w\<lparr>alerts := alerts w @ [import_failed]\<rparr>
           | Some st \<Rightarrow>
               let w1 = saveState fmt (w\<lparr>state := st\<rparr>) in
               if renders st then w1\<lparr>alerts := alerts w1 @ [''Import complete.'']\<rparr>
               else w1\<lparr>alerts := alerts w1 @ [import_failed]\<rparr>))"

text \<open>
  The \<^verbatim>\<open>click\<close> handler of a profile's Delete button: \<open>p\<close> is the profile of that row and
  \<open>ok\<close> the answer to \<^verbatim>\<open>confirm\<close>. An exception leaves the handler; the model then
  answers \<open>Inl\<close> and says nothing of the document.
\<close>

fun filterE :: "('a \<Rightarrow> error + bool) \<Rightarrow> 'a list \<Rightarrow> error + 'a list" where
  "filterE f [] = Inr []"
| "filterE f (x # xs) =
     bnd (f x) (\<lambda>keep. bnd (filterE f xs) (\<lambda>ys. Inr (if keep then x # ys else ys)))"

text \<open>\<^verbatim>\<open>state.profiles.length <= 1\<close>; a value without a length compares false. (An object
  with a property named \<^verbatim>\<open>length\<close> in the place of the profiles is outside the model.)\<close>

fun at_most_one :: "jsv \<Rightarrow> error + bool" where
  "at_most_one (Arr xs ps) = Inr (length xs \<le> 1)"
| "at_most_one (Str s) = Inr (length s \<le> 1)"
| "at_most_one Undefined = Inl TypeError"
| "at_most_one Null = Inl TypeError"
| "at_most_one v = Inr False"

text \<open>\<^verbatim>\<open>(state.k || []).filter(r => r.profileId !== p.id)\<close>, a new array.\<close>

definition not_owned :: "jsv \<Rightarrow> jsv \<Rightarrow> error + jsv" where
  "not_owned pid v =
     bnd (or_empty v) (\<lambda>rs.
     bnd (filterE (\<lambda>r. bnd (get_prop r ''profileId'') (\<lambda>x. Inr (\<not> strict_eq x pid))) rs) (\<lambda>kept.
     Inr (Arr kept [])))"

text \<open>\<^verbatim>\<open>state.profiles.filter(x => x.id !== p.id)\<close>\<close>

definition other_profiles :: "jsv \<Rightarrow> jsv \<Rightarrow> error + jsv" where
  "other_profiles pid v =
     (if isArray v then
        bnd (filterE (\<lambda>x. bnd (get_prop x ''id'') (\<lambda>i. Inr (\<not> strict_eq i pid))) (elems v)) (\<lambda>kept.
        Inr (Arr kept []))
      else Inl TypeError)"

text \<open>\<^verbatim>\<open>if (state.activeProfileId === p.id) state.activeProfileId = state.profiles[0].id;\<close>\<close>

definition reassign_active :: "jsv \<Rightarrow> jsv \<Rightarrow> error + jsv" where
  "reassign_active pid st =
     (if strict_eq (field st ''activeProfileId'') pid
      then bnd (first_id st) (\<lambda>i. Inr (with_field st ''activeProfileId'' i))
      else Inr st)"

text \<open>The statements of the handler after the confirmation, up to the call of \<^verbatim>\<open>saveState\<close>.\<close>

definition remove_profile :: "jsv \<Rightarrow> jsv \<Rightarrow> error + jsv" where
  "remove_profile p st =
     bnd (get_prop p ''id'') (\<lambda>pid.
     bnd (not_owned pid (field st ''practice'')) (\<lambda>practice.
     bnd (not_owned pid (field st ''competitions'')) (\<lambda>competitions.
     bnd (not_owned pid (field st ''aimMaps'')) (\<lambda>aimMaps.
     bnd (other_profiles pid (field st ''profiles'')) (\<lambda>profiles.
     reassign_active pid
       (with_field (with_field (with_field (with_field st
          ''practice'' practice) ''competitions'' competitions) ''aimMaps'' aimMaps) ''profiles'' profiles))))))"

text \<open>
  Whether the drawing code completes on a document: \<^verbatim>\<open>renderAll()\<close>, and the statements of
  \<^verbatim>\<open>renderProfileSelect()\<close> and of \<^verbatim>\<open>renderProfilesList()\<close> that follow their call of
  \<^verbatim>\<open>ensureProfiles()\<close>. An exception of the drawing code is reported as \<open>Inl TypeError\<close>,
  whatever its kind.
\<close>

record drawing =
  draws_all :: "jsv \<Rightarrow> bool"
  draws_select :: "jsv \<Rightarrow> bool"
  draws_list :: "jsv \<Rightarrow> bool"

definition renderProfileSelect :: "drawing \<Rightarrow> env \<Rightarrow> nat \<Rightarrow> jsv \<Rightarrow> error + jsv" where
  "renderProfileSelect d e k st =
     bnd (ensureProfiles e k st) (\<lambda>st'. if draws_select d st' then Inr st' else Inl TypeError)"

definition renderProfilesList :: "drawing \<Rightarrow> env \<Rightarrow> nat \<Rightarrow> jsv \<Rightarrow> error + jsv" where
  "renderProfilesList d e k st =
     bnd (ensureProfiles e k st) (\<lambda>st'. if draws_list d st' then Inr st' else Inl TypeError)"

text \<open>
  The whole handler. The text of the confirmation reads \<^verbatim>\<open>p.name\<close>. After \<^verbatim>\<open>saveState()\<close>
  come \<^verbatim>\<open>renderAll()\<close>, \<^verbatim>\<open>renderProfileSelect()\<close> and \<^verbatim>\<open>renderProfilesList()\<close>: the storage slot
  holds the document as it was at the save, the document in memory is what the two calls of
  \<^verbatim>\<open>ensureProfiles()\<close> make of it. The \<^verbatim>\<open>uid()\<close> of the first of them is call \<open>k\<close>; the
  second never calls \<^verbatim>\<open>uid()\<close>, since the first leaves a profile.
\<close>

definition delete_click ::
  "(real \<Rightarrow> string) \<Rightarrow> drawing \<Rightarrow> env \<Rightarrow> nat \<Rightarrow> jsv \<Rightarrow> bool \<Rightarrow> world \<Rightarrow> error + world" where
  "delete_click fmt d e k p ok w =
     bnd (at_most_one (field (state w) ''profiles'')) (\<lambda>few.
     if few then Inr (w\<lparr>alerts := alerts w @ [''You need at least one profile.'']\<rparr>)
     else bnd (get_prop p ''name'') (\<lambda>name.
     if \<not> ok then Inr w
     else bnd (remove_profile p (state w)) (\<lambda>st.
     let w1 = saveState fmt (w\<lparr>state := st\<rparr>) in
     if \<not> draws_all d st then Inl TypeError
     else bnd (renderProfileSelect d e k st) (\<lambda>st1.
     bnd (renderProfilesList d e (Suc k) st1) (\<lambda>st2.
     Inr (w1\<lparr>state := st2\<rparr>))))))"

text \<open>
  The records of the active profile, as the three accessors pick them for display.
  \<open>length_of\<close> and \<open>item0\<close> are \<^verbatim>\<open>v.length\<close> and \<^verbatim>\<open>v[0]\<close> of a truthy value.
\<close>

fun length_of :: "jsv \<Rightarrow> jsv" where
  "length_of (Arr xs ps) = Num (real (length xs))"
| "length_of (Str s) = Num (real (length s))"
| "length_of (Obj ps) = lookup ps ''length''"
| "length_of v = Undefined"

fun item0 :: "jsv \<Rightarrow> jsv" where
  "item0 (Arr xs ps) = (case xs of [] \<Rightarrow> Undefined | x # rest \<Rightarrow> x)"
| "item0 (Str s) = (case s of [] \<Rightarrow> Undefined | c # rest \<Rightarrow> Str [c])"
| "item0 (Obj ps) = lookup ps ''0''"
| "item0 v = Undefined"

definition getActiveProfileId :: "jsv \<Rightarrow> error + jsv" where
  "getActiveProfileId st =
     (if truthy (field st ''activeProfileId'') then Inr (field st ''activeProfileId'')
      else if truthy (field st ''profiles'') \<and> truthy (length_of (field st ''profiles''))
      then get_prop (item0 (field st ''profiles'')) ''id''
      else Inr Null)"

text \<open>\<^verbatim>\<open>r.profileId || pid\<close>: the profile that the accessors give a record to, \<open>pid\<close> being the
  active one.\<close>

definition effective_owner :: "jsv \<Rightarrow> jsv \<Rightarrow> jsv" where
  "effective_owner pid r = (if truthy (field r ''profileId'') then field r ''profileId'' else pid)"

text \<open>
  \<^verbatim>\<open>(state.k || []).filter(r => (r.profileId || pid) === pid)\<close> with
  \<^verbatim>\<open>pid = getActiveProfileId()\<close>. When \<^verbatim>\<open>r.profileId\<close> is falsy the two operands are the
  same value \<^verbatim>\<open>pid\<close> and the comparison holds.
\<close>

definition for_active :: "string \<Rightarrow> jsv \<Rightarrow> error + jsv list" where
  "for_active k st =
     bnd (getActiveProfileId st) (\<lambda>pid.
     bnd (or_empty (field st k)) (\<lambda>rs.
     filterE (\<lambda>r. if nullish r then Inl TypeError
                  else Inr (if truthy (field r ''profileId'') then strict_eq (effective_owner pid r) pid
                            else True)) rs))"


definition competitionsForActive :: "jsv \<Rightarrow> error + jsv list" where
  "competitionsForActive st = for_active ''competitions'' st"

definition aimMapsForActive :: "jsv \<Rightarrow> error + jsv list" where
  "aimMapsForActive st = for_active ''aimMaps'' st"


text \<open>A value that holds properties: an object or an array.\<close>

definition container :: "jsv \<Rightarrow> bool" where
  "container v = (case v of Obj ps \<Rightarrow> True | Arr xs ps \<Rightarrow> True | _ \<Rightarrow> False)"

section \<open>Sample inputs\<close>

text \<open>
  Concrete inputs for the examples below: an environment whose k-th identifier is
  \<^verbatim>\<open>u\<close> followed by k, a number format that is right on the natural numbers, a document
  in the older schema whose competition result holds two bare numbers, a stored document
  whose \<^verbatim>\<open>activeProfileId\<close> names no profile with its text and what \<^verbatim>\<open>JSON.parse\<close> makes
  of that text, a document with two profiles, as it is before the first of them is
  deleted, at the save and after the handler, a stored document whose first profile has no
  \<^verbatim>\<open>id\<close>, as it is parsed, loaded and after that profile is deleted, a drawing code that
  always completes, and the world that holds a document.
\<close>

definition sample_env :: env where
  "sample_env = \<lparr> uid = (\<lambda>k. ''u'' @ show_nat k), iso = (\<lambda>k. ''2024-01-01T00:00:00.000Z'') \<rparr>"

definition sample_fmt :: "real \<Rightarrow> string" where
  "sample_fmt r = show_nat (nat \<lfloor>r\<rfloor>)"

definition old_schema_doc :: jsv where
  "old_schema_doc =
     Obj [(''competitions'',
           Arr [Obj [(''id'', Str ''c1''), (''date'', Str ''2023-05-01''), (''event'', Str ''Regional''),
                     (''round'', Str ''bullseye''),
                     (''bullseye'', Obj [(''m10'', Num 140), (''m15'', Num 120)])]] [])]"

definition dangling_doc :: jsv where
  "dangling_doc =
     Obj [(''profiles'', Arr [Obj [(''id'', Str ''a1''), (''name'', Str ''Ann''), (''createdAt'', Str ''2024-01-01'')]] []),
          (''activeProfileId'', Str ''zzz''),
          (''practice'', Arr [Obj [(''id'', Str ''s1''), (''title'', Str ''warm-up'')]] [])]"

definition dangling_text :: string where
  \<open>dangling_text = ''{"profiles":[{"id":"a1","name":"Ann","createdAt":"2024-01-01"}],"activeProfileId":"zzz","practice":[{"id":"s1","title":"warm-up"}]}''\<close>

definition sample_parse :: "string \<Rightarrow> jsv option" where
  "sample_parse t = (if t = dangling_text then Some dangling_doc else None)"

definition null_active_doc :: jsv where
  "null_active_doc =
     Obj [(''profiles'', Arr [Obj [(''id'', Str ''a1''), (''name'', Str ''Ann'')]] []),
          (''activeProfileId'', Null)]"

definition two_profiles_doc :: jsv where
  "two_profiles_doc =
     Obj [(''profiles'', Arr [Obj [(''id'', Str ''a1''), (''name'', Str ''Ann'')],
                              Obj [(''id'', Str ''b2''), (''name'', Str ''Bob'')]] []),
          (''activeProfileId'', Str ''a1''),
          (''practice'', Arr [Obj [(''id'', Str ''s1''), (''profileId'', Str ''a1'')],
                              Obj [(''id'', Str ''s2''), (''profileId'', Str ''b2'')],
                              Obj [(''id'', Str ''s3''), (''profileId'', Null)],
                              Obj [(''id'', Str ''s4'')]] []),
          (''competitions'', Arr [Obj [(''id'', Str ''c1''), (''profileId'', Str ''a1'')]] []),
          (''aimMaps'', Arr [Obj [(''id'', Str ''m1''), (''profileId'', Str ''b2'')]] []),
          (''settings'', Obj [(''animalScoring'', Str ''nasp3d'')])]"

definition ann :: jsv where
  "ann = Obj [(''id'', Str ''a1''), (''name'', Str ''Ann'')]"

definition without_ann_doc :: jsv where
  "without_ann_doc =
     Obj [(''profiles'', Arr [Obj [(''id'', Str ''b2''), (''name'', Str ''Bob'')]] []),
          (''activeProfileId'', Str ''b2''),
          (''practice'', Arr [Obj [(''id'', Str ''s2''), (''profileId'', Str ''b2'')],
                              Obj [(''id'', Str ''s3''), (''profileId'', Null)],
                              Obj [(''id'', Str ''s4'')]] []),
          (''competitions'', Arr [] []),
          (''aimMaps'', Arr [Obj [(''id'', Str ''m1''), (''profileId'', Str ''b2'')]] []),
          (''settings'', Obj [(''animalScoring'', Str ''nasp3d'')])]"

definition after_ann_doc :: jsv where
  "after_ann_doc =
     Obj [(''profiles'', Arr [Obj [(''id'', Str ''b2''), (''name'', Str ''Bob'')]] []),
          (''activeProfileId'', Str ''b2''),
          (''practice'', Arr [Obj [(''id'', Str ''s2''), (''profileId'', Str ''b2'')],
                              Obj [(''id'', Str ''s3''), (''profileId'', Str ''b2'')],
                              Obj [(''id'', Str ''s4''), (''profileId'', Str ''b2'')]] []),
          (''competitions'', Arr [] []),
          (''aimMaps'', Arr [Obj [(''id'', Str ''m1''), (''profileId'', Str ''b2'')]] []),
          (''settings'', Obj [(''animalScoring'', Str ''nasp3d'')])]"

definition noid_stored :: jsv where
  "noid_stored =
     Obj [(''profiles'', Arr [Obj [(''name'', Str ''Ann'')],
                              Obj [(''id'', Str ''b2''), (''name'', Str ''Bob'')]] []),
          (''activeProfileId'', Null),
          (''practice'', Arr [Obj [(''id'', Str ''s1'')]] [])]"

definition noid_doc :: jsv where
  "noid_doc =
     Obj [(''profiles'', Arr [Obj [(''name'', Str ''Ann'')],
                              Obj [(''id'', Str ''b2''), (''name'', Str ''Bob'')]] []),
          (''activeProfileId'', Undefined),
          (''practice'', Arr [Obj [(''id'', Str ''s1''), (''profileId'', Undefined)]] []),
          (''competitions'', Arr [] []),
          (''aimMaps'', Arr [] []),
          (''settings'', Obj [(''animalScoring'', Str ''nasp3d'')])]"

definition noid_after :: jsv where
  "noid_after =
     Obj [(''profiles'', Arr [Obj [(''id'', Str ''b2''), (''name'', Str ''Bob'')]] []),
          (''activeProfileId'', Str ''b2''),
          (''practice'', Arr [] []),
          (''competitions'', Arr [] []),
          (''aimMaps'', Arr [] []),
          (''settings'', Obj [(''animalScoring'', Str ''nasp3d'')])]"

definition sample_drawing :: drawing where
  "sample_drawing = \<lparr> draws_all = (\<lambda>st. True), draws_select = (\<lambda>st. True), draws_list = (\<lambda>st. True) \<rparr>"

definition sample_world :: "jsv \<Rightarrow> world" where
  "sample_world st = \<lparr> state = st, slot = Some (stringify sample_fmt [] st), alerts = [], downloads = [] \<rparr>"

section \<open>Basic facts about values\<close>

lemma bnd_Inr [simp]: "bnd (Inr x) f = f x"
  by (simp add: bnd_def)

lemma bnd_Inl [simp]: "bnd (Inl e) f = Inl e"
  by (simp add: bnd_def)

lemma foldl_add_shift: "foldl (+) (a::real) xs = a + sum_list xs"
  by (induction xs arbitrary: a) auto

lemma reduce_safe_shift:
  "foldl (\<lambda>s n. s + safeNumber co n) a (map Num xs) = a + sum_list xs"
  by (induction xs arbitrary: a) auto

lemma reduce_safe_Num [simp]: "reduce_safe co (map Num xs) = sum_list xs"
  by (simp add: reduce_safe_def reduce_safe_shift)

lemma strict_eq_Str [simp]: "strict_eq v (Str s) = (v = Str s)"
  by (cases v) auto

lemma or_empty_Arr [simp]: "or_empty (Arr xs ps) = Inr xs"
  by (simp add: or_empty_def)

lemma or_empty_isArray: "isArray v \<Longrightarrow> or_empty v = Inr (elems v)"
  by (cases v) (auto simp: or_empty_def)

lemma or_empty_num_array: "num_array v xs \<Longrightarrow> or_empty v = Inr (map Num xs)"
  by (cases v) (auto simp: num_array_def)

lemma get_prop_field: "\<not> nullish v \<Longrightarrow> get_prop v k = Inr (field v k)"
  by (simp add: get_prop_def)

lemma truthy_not_nullish: "truthy v \<Longrightarrow> \<not> nullish v"
  by (auto simp: nullish_def)

lemma field_not_nullish: "field v k = Str s \<Longrightarrow> \<not> nullish v"
  by (auto simp: nullish_def)

lemma num_array_not_nullish: "num_array (field v k) xs \<Longrightarrow> \<not> nullish v"
  by (auto simp: nullish_def num_array_def)

lemma reduce_sets_sum:
  "list_all2 is_set ss ps \<Longrightarrow>
     reduce_sets co a ss = Inr (a + (\<Sum>p\<leftarrow>ps. sum_list (fst p) + sum_list (snd p)))"
proof (induction ss ps arbitrary: a rule: list_all2_induct)
  case Nil
  then show ?case by simp
next
  case (Cons s ss p ps)
  from Cons.hyps(1) have nn: "\<not> nullish s"
    by (auto simp: is_set_def dest: num_array_not_nullish)
  from Cons.hyps(1) have oe: "or_empty (field s ''m10'') = Inr (map Num (fst p))"
      "or_empty (field s ''m15'') = Inr (map Num (snd p))"
    by (auto simp: is_set_def intro: or_empty_num_array)
  show ?case
    by (simp add: Cons.IH get_prop_field[OF nn] oe algebra_simps)
qed

lemma reduce_score_sum:
  "list_all2 is_row rs scs \<Longrightarrow> reduce_score co a rs = Inr (a + sum_list scs)"
proof (induction rs scs arbitrary: a rule: list_all2_induct)
  case Nil
  then show ?case by simp
next
  case (Cons r rs sc scs)
  then show ?case
    by (simp add: is_row_def get_prop_field algebra_simps)
qed

section \<open>Scoring: the total of a competition record\<close>

text \<open>
  C5. \<^verbatim>\<open>competitionTotal\<close> dispatches on the format tag of a bullseye record: it is the sum
  of \<^verbatim>\<open>m10\<close> for \<^verbatim>\<open>4x10\<close> (77 for 20, 18, 19, 20), the sum of the values of every set
  for \<^verbatim>\<open>2sets\<close>, the sum of \<^verbatim>\<open>m10\<close> and \<^verbatim>\<open>m15\<close> for \<^verbatim>\<open>legacy\<close>, the sum of the
  scores of the rows for an animal round, and 0 for any other round, an absent block or an
  unknown format.
\<close>

theorem competitionTotal_dispatch:
  "(field c1 ''round'' = Str ''bullseye'' \<and> truthy (field c1 ''bullseye'')
      \<and> field (field c1 ''bullseye'') ''format'' = Str ''4x10''
      \<and> num_array (field (field c1 ''bullseye'') ''m10'') xs1
     \<longrightarrow> competitionTotal co c1 = Inr (sum_list xs1))
   \<and> (field c2 ''round'' = Str ''bullseye'' \<and> truthy (field c2 ''bullseye'')
      \<and> field (field c2 ''bullseye'') ''format'' = Str ''2sets''
      \<and> isArray (field (field c2 ''bullseye'') ''sets'')
      \<and> list_all2 is_set (elems (field (field c2 ''bullseye'') ''sets'')) ps2
     \<longrightarrow> competitionTotal co c2 = Inr (\<Sum>p\<leftarrow>ps2. sum_list (fst p) + sum_list (snd p)))
   \<and> (field c3 ''round'' = Str ''bullseye'' \<and> truthy (field c3 ''bullseye'')
      \<and> field (field c3 ''bullseye'') ''format'' = Str ''legacy''
      \<and> num_array (field (field c3 ''bullseye'') ''m10'') xs3
      \<and> num_array (field (field c3 ''bullseye'') ''m15'') ys3
     \<longrightarrow> competitionTotal co c3 = Inr (sum_list xs3 + sum_list ys3))
   \<and> (field c4 ''round'' = Str ''animal'' \<and> isArray (field c4 ''animal'')
      \<and> list_all2 is_row (elems (field c4 ''animal'')) scs4
     \<longrightarrow> competitionTotal co c4 = Inr (sum_list scs4))
   \<and> (\<not> nullish c5 \<and> field c5 ''round'' \<noteq> Str ''bullseye'' \<and> field c5 ''round'' \<noteq> Str ''animal''
     \<longrightarrow> competitionTotal co c5 = Inr 0)
   \<and> (field c6 ''round'' = Str ''bullseye'' \<and> \<not> truthy (field c6 ''bullseye'')
     \<longrightarrow> competitionTotal co c6 = Inr 0)
   \<and> (field c7 ''round'' = Str ''bullseye'' \<and> truthy (field c7 ''bullseye'')
      \<and> field (field c7 ''bullseye'') ''format'' \<noteq> Str ''4x10''
      \<and> field (field c7 ''bullseye'') ''format'' \<noteq> Str ''2sets''
      \<and> field (field c7 ''bullseye'') ''format'' \<noteq> Str ''legacy''
     \<longrightarrow> competitionTotal co c7 = Inr 0)
   \<and> (field c8 ''round'' = Str ''animal'' \<and> \<not> truthy (field c8 ''animal'')
     \<longrightarrow> competitionTotal co c8 = Inr 0)
   \<and> competitionTotal co
        (Obj [(''round'', Str ''bullseye''),
              (''bullseye'', Obj [(''format'', Str ''4x10''), (''m10'', Arr [Num 20, Num 18, Num 19, Num 20] [])])])
       = Inr 77"
proof (intro conjI impI)
  assume h: "field c1 ''round'' = Str ''bullseye'' \<and> truthy (field c1 ''bullseye'')
      \<and> field (field c1 ''bullseye'') ''format'' = Str ''4x10''
      \<and> num_array (field (field c1 ''bullseye'') ''m10'') xs1"
  then have "\<not> nullish c1" "\<not> nullish (field c1 ''bullseye'')"
    by (auto dest: field_not_nullish)
  moreover from h have "or_empty (field (field c1 ''bullseye'') ''m10'') = Inr (map Num xs1)"
    by (auto intro: or_empty_num_array)
  ultimately show "competitionTotal co c1 = Inr (sum_list xs1)"
    using h by (simp add: competitionTotal_def get_prop_field)
next
  assume h: "field c2 ''round'' = Str ''bullseye'' \<and> truthy (field c2 ''bullseye'')
      \<and> field (field c2 ''bullseye'') ''format'' = Str ''2sets''
      \<and> isArray (field (field c2 ''bullseye'') ''sets'')
      \<and> list_all2 is_set (elems (field (field c2 ''bullseye'') ''sets'')) ps2"
  then have "\<not> nullish c2" "\<not> nullish (field c2 ''bullseye'')"
    by (auto dest: field_not_nullish)
  moreover from h have "reduce_sets co 0 (elems (field (field c2 ''bullseye'') ''sets''))
      = Inr (0 + (\<Sum>p\<leftarrow>ps2. sum_list (fst p) + sum_list (snd p)))"
    by (intro reduce_sets_sum) simp
  ultimately show "competitionTotal co c2 = Inr (\<Sum>p\<leftarrow>ps2. sum_list (fst p) + sum_list (snd p))"
    using h by (simp add: competitionTotal_def get_prop_field or_empty_isArray)
next
  assume h: "field c3 ''round'' = Str ''bullseye'' \<and> truthy (field c3 ''bullseye'')
      \<and> field (field c3 ''bullseye'') ''format'' = Str ''legacy''
      \<and> num_array (field (field c3 ''bullseye'') ''m10'') xs3
      \<and> num_array (field (field c3 ''bullseye'') ''m15'') ys3"
  then have "\<not> nullish c3" "\<not> nullish (field c3 ''bullseye'')"
    by (auto dest: field_not_nullish)
  moreover from h have "or_empty (field (field c3 ''bullseye'') ''m10'') = Inr (map Num xs3)"
      "or_empty (field (field c3 ''bullseye'') ''m15'') = Inr (map Num ys3)"
    by (auto intro: or_empty_num_array)
  ultimately show "competitionTotal co c3 = Inr (sum_list xs3 + sum_list ys3)"
    using h by (simp add: competitionTotal_def get_prop_field)
next
  assume h: "field c4 ''round'' = Str ''animal'' \<and> isArray (field c4 ''animal'')
      \<and> list_all2 is_row (elems (field c4 ''animal'')) scs4"
  then have "\<not> nullish c4" by (auto dest: field_not_nullish)
  moreover from h have "truthy (field c4 ''animal'')" by (cases "field c4 ''animal''") auto
  moreover from h have "reduce_score co 0 (elems (field c4 ''animal'')) = Inr (0 + sum_list scs4)"
    by (intro reduce_score_sum) simp
  ultimately show "competitionTotal co c4 = Inr (sum_list scs4)"
    using h by (simp add: competitionTotal_def get_prop_field animal_sum_def)
next
  assume "\<not> nullish c5 \<and> field c5 ''round'' \<noteq> Str ''bullseye'' \<and> field c5 ''round'' \<noteq> Str ''animal''"
  then show "competitionTotal co c5 = Inr 0"
    by (simp add: competitionTotal_def get_prop_field)
next
  assume h: "field c6 ''round'' = Str ''bullseye'' \<and> \<not> truthy (field c6 ''bullseye'')"
  then have "\<not> nullish c6" by (auto dest: field_not_nullish)
  with h show "competitionTotal co c6 = Inr 0"
    by (simp add: competitionTotal_def get_prop_field)
next
  assume h: "field c7 ''round'' = Str ''bullseye'' \<and> truthy (field c7 ''bullseye'')
      \<and> field (field c7 ''bullseye'') ''format'' \<noteq> Str ''4x10''
      \<and> field (field c7 ''bullseye'') ''format'' \<noteq> Str ''2sets''
      \<and> field (field c7 ''bullseye'') ''format'' \<noteq> Str ''legacy''"
  then have "\<not> nullish c7" "\<not> nullish (field c7 ''bullseye'')"
    by (auto dest: field_not_nullish truthy_not_nullish)
  with h show "competitionTotal co c7 = Inr 0"
    by (simp add: competitionTotal_def get_prop_field)
next
  assume h: "field c8 ''round'' = Str ''animal'' \<and> \<not> truthy (field c8 ''animal'')"
  then have "\<not> nullish c8" by (auto dest: field_not_nullish)
  with h show "competitionTotal co c8 = Inr 0"
    by (simp add: competitionTotal_def get_prop_field)
next
  show "competitionTotal co
        (Obj [(''round'', Str ''bullseye''),
              (''bullseye'', Obj [(''format'', Str ''4x10''), (''m10'', Arr [Num 20, Num 18, Num 19, Num 20] [])])])
       = Inr 77"
    by (simp add: competitionTotal_def get_prop_def nullish_def lookup_def reduce_safe_def)
qed


theorem competitionTotal_dispatch_witness:
  "competitionTotal (\<lambda>v. None)
     (Obj [(''round'', Str ''bullseye''),
           (''bullseye'', Obj [(''format'', Str ''4x10''), (''m10'', Arr [Num 20, Num 18, Num 19, Num 20] [])])])
     = Inr (sum_list [20, 18, 19, 20])
   \<and> competitionTotal (\<lambda>v. None)
     (Obj [(''round'', Str ''bullseye''),
           (''bullseye'', Obj [(''format'', Str ''2sets''),
              (''sets'', Arr [Obj [(''m10'', Arr [Num 9, Num 9, Num 8] []), (''m15'', Arr [Num 7, Num 8, Num 9] [])],
                              Obj [(''m10'', Arr [Num 9, Num 9, Num 8] []), (''m15'', Arr [Num 7, Num 8, Num 9] [])]] [])])])
     = Inr 100
   \<and> competitionTotal (\<lambda>v. None)
     (Obj [(''round'', Str ''bullseye''),
           (''bullseye'', Obj [(''format'', Str ''legacy''), (''m10'', Arr [Num 140] []), (''m15'', Arr [Num 120] [])])])
     = Inr 260
   \<and> competitionTotal (\<lambda>v. None)
     (Obj [(''round'', Str ''animal''),
           (''animal'', Arr [Obj [(''distance'', Num 10), (''animal'', Str ''Buck''), (''score'', Num 8)],
                             Obj [(''distance'', Num 11), (''animal'', Str ''Warthog''), (''score'', Num 10)]] [])])
     = Inr 18
   \<and> competitionTotal (\<lambda>v. None) (Obj [(''round'', Str ''field'')]) = Inr 0
   \<and> competitionTotal (\<lambda>v. None) (Obj [(''round'', Str ''bullseye''), (''bullseye'', Null)]) = Inr 0
   \<and> competitionTotal (\<lambda>v. None)
     (Obj [(''round'', Str ''bullseye''), (''bullseye'', Obj [(''format'', Str ''3x20''), (''m10'', Arr [Num 20] [])])])
     = Inr 0
   \<and> competitionTotal (\<lambda>v. None) (Obj [(''round'', Str ''animal''), (''animal'', Null)]) = Inr 0"
  using competitionTotal_dispatch [where co = "\<lambda>v. None"
    and ?c1.0 = "Obj [(''round'', Str ''bullseye''),
           (''bullseye'', Obj [(''format'', Str ''4x10''), (''m10'', Arr [Num 20, Num 18, Num 19, Num 20] [])])]"
    and ?xs1.0 = "[20, 18, 19, 20]"
    and ?c2.0 = "Obj [(''round'', Str ''bullseye''),
           (''bullseye'', Obj [(''format'', Str ''2sets''),
              (''sets'', Arr [Obj [(''m10'', Arr [Num 9, Num 9, Num 8] []), (''m15'', Arr [Num 7, Num 8, Num 9] [])],
                              Obj [(''m10'', Arr [Num 9, Num 9, Num 8] []), (''m15'', Arr [Num 7, Num 8, Num 9] [])]] [])])]"
    and ?ps2.0 = "[([9, 9, 8], [7, 8, 9]), ([9, 9, 8], [7, 8, 9])]"
    and ?c3.0 = "Obj [(''round'', Str ''bullseye''),
           (''bullseye'', Obj [(''format'', Str ''legacy''), (''m10'', Arr [Num 140] []), (''m15'', Arr [Num 120] [])])]"
    and ?xs3.0 = "[140]" and ?ys3.0 = "[120]"
    and ?c4.0 = "Obj [(''round'', Str ''animal''),
           (''animal'', Arr [Obj [(''distance'', Num 10), (''animal'', Str ''Buck''), (''score'', Num 8)],
                             Obj [(''distance'', Num 11), (''animal'', Str ''Warthog''), (''score'', Num 10)]] [])]"
    and ?scs4.0 = "[8, 10]"
    and ?c5.0 = "Obj [(''round'', Str ''field'')]"
    and ?c6.0 = "Obj [(''round'', Str ''bullseye''), (''bullseye'', Null)]"
    and ?c7.0 = "Obj [(''round'', Str ''bullseye''), (''bullseye'', Obj [(''format'', Str ''3x20''), (''m10'', Arr [Num 20] [])])]"
    and ?c8.0 = "Obj [(''round'', Str ''animal''), (''animal'', Null)]"]
  by (simp add: lookup_def num_array_def is_set_def is_row_def nullish_def)

section \<open>Scoring: the totals of a practice session\<close>

lemma sum_js_num_array: "num_array v xs \<Longrightarrow> sum_js co v = Inr (sum_list xs)"
  by (simp add: sum_js_def or_empty_num_array foldl_add_shift comp_def)

lemma meanOrNull_num_array:
  "num_array v xs \<Longrightarrow>
     meanOrNull co v = Inr (if xs = [] then None else Some (sum_list xs / real (length xs)))"
  by (simp add: meanOrNull_def or_empty_num_array foldl_add_shift comp_def Let_def)

lemma bullseye_block_nums:
  assumes "truthy b" "num_array (field b ''m10'') xs" "num_array (field b ''m15'') ys"
  shows "bullseye_block co b =
    Inr (if xs = [] then None else Some (sum_list xs),
         if ys = [] then None else Some (sum_list ys),
         if xs = [] then None else Some (sum_list xs / real (length xs)),
         if ys = [] then None else Some (sum_list ys / real (length ys)),
         Some (sum_list xs + sum_list ys))"
proof -
  have nn: "\<not> nullish b" using assms(1) by (rule truthy_not_nullish)
  have a: "isArray (field b ''m10'')" "isArray (field b ''m15'')"
    "elems (field b ''m10'') = map Num xs" "elems (field b ''m15'') = map Num ys"
    using assms by (auto simp: num_array_def)
  show ?thesis
    using assms(2,3)
    by (simp add: bullseye_block_def get_prop_field[OF nn] a sum_js_num_array meanOrNull_num_array Let_def)
qed

text \<open>
  C6. \<^verbatim>\<open>practiceTotals\<close> gives \<^verbatim>\<open>null\<close>, not 0, for the sum and the average of a distance
  whose list of rounds is empty, while the overall bullseye total is the sum of both lists:
  for \<^verbatim>\<open>{m10: [], m15: [8, 9]}\<close> it returns \<^verbatim>\<open>bull10Sum = null\<close>, \<^verbatim>\<open>bull10Avg = null\<close>,
  \<^verbatim>\<open>bull15Avg = 8.5\<close> and \<^verbatim>\<open>bullTotalSum = 17\<close>. Without a bullseye block every
  bullseye field is \<^verbatim>\<open>null\<close>.
\<close>

theorem practiceTotals_empty_is_null:
  "(truthy (field s1 ''bullseye'')
      \<and> num_array (field (field s1 ''bullseye'') ''m10'') xs1
      \<and> num_array (field (field s1 ''bullseye'') ''m15'') ys1
      \<and> practiceTotals co s1 = Inr t1
     \<longrightarrow> bull10Sum t1 = (if xs1 = [] then None else Some (sum_list xs1))
       \<and> bull10Avg t1 = (if xs1 = [] then None else Some (sum_list xs1 / real (length xs1)))
       \<and> bull15Sum t1 = (if ys1 = [] then None else Some (sum_list ys1))
       \<and> bull15Avg t1 = (if ys1 = [] then None else Some (sum_list ys1 / real (length ys1)))
       \<and> bullTotalSum t1 = Some (sum_list xs1 + sum_list ys1))
   \<and> (truthy (field s2 ''bullseye'')
      \<and> num_array (field (field s2 ''bullseye'') ''m10'') xs2
      \<and> num_array (field (field s2 ''bullseye'') ''m15'') ys2
      \<and> \<not> truthy (field s2 ''animal'')
     \<longrightarrow> (\<exists>t. practiceTotals co s2 = Inr t))
   \<and> practiceTotals co
        (Obj [(''bullseye'', Obj [(''m10'', Arr [] []), (''m15'', Arr [Num 8, Num 9] [])])])
      = Inr \<lparr> bull10Sum = None, bull15Sum = Some 17, bull10Avg = None, bull15Avg = Some 8.5,
              bullTotalSum = Some 17, animalTotal = None \<rparr>
   \<and> (\<not> truthy (field s3 ''bullseye'') \<and> practiceTotals co s3 = Inr t3
     \<longrightarrow> bull10Sum t3 = None \<and> bull15Sum t3 = None \<and> bull10Avg t3 = None \<and> bull15Avg t3 = None
       \<and> bullTotalSum t3 = None)
   \<and> (\<not> nullish s4 \<and> \<not> truthy (field s4 ''bullseye'') \<and> \<not> truthy (field s4 ''animal'')
     \<longrightarrow> practiceTotals co s4
         = Inr \<lparr> bull10Sum = None, bull15Sum = None, bull10Avg = None, bull15Avg = None,
                 bullTotalSum = None, animalTotal = None \<rparr>)"
proof (intro conjI impI)
  assume h: "truthy (field s1 ''bullseye'')
      \<and> num_array (field (field s1 ''bullseye'') ''m10'') xs1
      \<and> num_array (field (field s1 ''bullseye'') ''m15'') ys1
      \<and> practiceTotals co s1 = Inr t1"
  then have bb: "bullseye_block co (field s1 ''bullseye'') =
    Inr (if xs1 = [] then None else Some (sum_list xs1),
         if ys1 = [] then None else Some (sum_list ys1),
         if xs1 = [] then None else Some (sum_list xs1 / real (length xs1)),
         if ys1 = [] then None else Some (sum_list ys1 / real (length ys1)),
         Some (sum_list xs1 + sum_list ys1))"
    by (intro bullseye_block_nums) auto
  from h have nn: "\<not> nullish s1" by (cases s1) (auto simp: nullish_def)
  from h have "practiceTotals co s1 = Inr t1" by simp
  then have t: "\<exists>a. t1 = \<lparr> bull10Sum = (if xs1 = [] then None else Some (sum_list xs1)),
      bull15Sum = (if ys1 = [] then None else Some (sum_list ys1)),
      bull10Avg = (if xs1 = [] then None else Some (sum_list xs1 / real (length xs1))),
      bull15Avg = (if ys1 = [] then None else Some (sum_list ys1 / real (length ys1))),
      bullTotalSum = Some (sum_list xs1 + sum_list ys1), animalTotal = a \<rparr>"
    using h by (auto simp: practiceTotals_def get_prop_field[OF nn] bb bnd_def split: sum.splits if_splits)
  from t show "bull10Sum t1 = (if xs1 = [] then None else Some (sum_list xs1))" by auto
  from t show "bull10Avg t1 = (if xs1 = [] then None else Some (sum_list xs1 / real (length xs1)))" by auto
  from t show "bull15Sum t1 = (if ys1 = [] then None else Some (sum_list ys1))" by auto
  from t show "bull15Avg t1 = (if ys1 = [] then None else Some (sum_list ys1 / real (length ys1)))" by auto
  from t show "bullTotalSum t1 = Some (sum_list xs1 + sum_list ys1)" by auto
next
  assume h: "truthy (field s2 ''bullseye'')
      \<and> num_array (field (field s2 ''bullseye'') ''m10'') xs2
      \<and> num_array (field (field s2 ''bullseye'') ''m15'') ys2
      \<and> \<not> truthy (field s2 ''animal'')"
  then have bb: "bullseye_block co (field s2 ''bullseye'') =
    Inr (if xs2 = [] then None else Some (sum_list xs2),
         if ys2 = [] then None else Some (sum_list ys2),
         if xs2 = [] then None else Some (sum_list xs2 / real (length xs2)),
         if ys2 = [] then None else Some (sum_list ys2 / real (length ys2)),
         Some (sum_list xs2 + sum_list ys2))"
    by (intro bullseye_block_nums) auto
  from h have nn: "\<not> nullish s2" by (cases s2) (auto simp: nullish_def)
  show "\<exists>t. practiceTotals co s2 = Inr t"
    using h by (simp add: practiceTotals_def get_prop_field[OF nn] bb)
next
  show "practiceTotals co
        (Obj [(''bullseye'', Obj [(''m10'', Arr [] []), (''m15'', Arr [Num 8, Num 9] [])])])
      = Inr \<lparr> bull10Sum = None, bull15Sum = Some 17, bull10Avg = None, bull15Avg = Some 8.5,
              bullTotalSum = Some 17, animalTotal = None \<rparr>"
    by (simp add: practiceTotals_def bullseye_block_def get_prop_def nullish_def lookup_def
        sum_js_def meanOrNull_def or_empty_def Let_def)
next
  assume h: "\<not> truthy (field s3 ''bullseye'') \<and> practiceTotals co s3 = Inr t3"
  then have nn: "\<not> nullish s3"
    by (auto simp: practiceTotals_def get_prop_def split: if_splits)
  from h have t: "\<exists>a. t3 = \<lparr> bull10Sum = None, bull15Sum = None, bull10Avg = None, bull15Avg = None,
      bullTotalSum = None, animalTotal = a \<rparr>"
    by (auto simp: practiceTotals_def get_prop_field[OF nn] bnd_def split: sum.splits if_splits)
  from t show "bull10Sum t3 = None" by auto
  from t show "bull15Sum t3 = None" by auto
  from t show "bull10Avg t3 = None" by auto
  from t show "bull15Avg t3 = None" by auto
  from t show "bullTotalSum t3 = None" by auto
next
  assume "\<not> nullish s4 \<and> \<not> truthy (field s4 ''bullseye'') \<and> \<not> truthy (field s4 ''animal'')"
  then show "practiceTotals co s4
         = Inr \<lparr> bull10Sum = None, bull15Sum = None, bull10Avg = None, bull15Avg = None,
                 bullTotalSum = None, animalTotal = None \<rparr>"
    by (simp add: practiceTotals_def get_prop_field)
qed

theorem practiceTotals_empty_is_null_witness:
  "practiceTotals (\<lambda>v. None)
        (Obj [(''bullseye'', Obj [(''m10'', Arr [] []), (''m15'', Arr [Num 8, Num 9] [])])])
      = Inr \<lparr> bull10Sum = None, bull15Sum = Some 17, bull10Avg = None, bull15Avg = Some 8.5,
              bullTotalSum = Some 17, animalTotal = None \<rparr>
   \<and> bull10Sum \<lparr> bull10Sum = None, bull15Sum = Some 17, bull10Avg = None, bull15Avg = Some 8.5,
              bullTotalSum = Some 17, animalTotal = None \<rparr> = None
   \<and> bullTotalSum \<lparr> bull10Sum = None, bull15Sum = Some 17, bull10Avg = None, bull15Avg = Some 8.5,
              bullTotalSum = Some 17, animalTotal = None \<rparr> = Some (sum_list [] + sum_list [8, 9])
   \<and> (\<exists>t. practiceTotals (\<lambda>v. None)
        (Obj [(''bullseye'', Obj [(''m10'', Arr [] []), (''m15'', Arr [Num 8, Num 9] [])])]) = Inr t)
   \<and> practiceTotals (\<lambda>v. None) (Obj [(''animal'', Arr [Obj [(''score'', Num 7)]] [])])
      = Inr \<lparr> bull10Sum = None, bull15Sum = None, bull10Avg = None, bull15Avg = None,
              bullTotalSum = None, animalTotal = Some 7 \<rparr>
   \<and> bull10Sum \<lparr> bull10Sum = None, bull15Sum = None, bull10Avg = None, bull15Avg = None,
              bullTotalSum = None, animalTotal = Some 7 \<rparr> = None
   \<and> practiceTotals (\<lambda>v. None) (Obj [(''title'', Str ''rest day'')])
         = Inr \<lparr> bull10Sum = None, bull15Sum = None, bull10Avg = None, bull15Avg = None,
                 bullTotalSum = None, animalTotal = None \<rparr>"
  using practiceTotals_empty_is_null [where co = "\<lambda>v. None"
    and ?s1.0 = "Obj [(''bullseye'', Obj [(''m10'', Arr [] []), (''m15'', Arr [Num 8, Num 9] [])])]"
    and ?xs1.0 = "[]" and ?ys1.0 = "[8, 9]"
    and ?t1.0 = "\<lparr> bull10Sum = None, bull15Sum = Some 17, bull10Avg = None, bull15Avg = Some 8.5,
              bullTotalSum = Some 17, animalTotal = None \<rparr>"
    and ?s2.0 = "Obj [(''bullseye'', Obj [(''m10'', Arr [] []), (''m15'', Arr [Num 8, Num 9] [])])]"
    and ?xs2.0 = "[]" and ?ys2.0 = "[8, 9]"
    and ?s3.0 = "Obj [(''animal'', Arr [Obj [(''score'', Num 7)]] [])]"
    and ?t3.0 = "\<lparr> bull10Sum = None, bull15Sum = None, bull10Avg = None, bull15Avg = None,
              bullTotalSum = None, animalTotal = Some 7 \<rparr>"
    and ?s4.0 = "Obj [(''title'', Str ''rest day'')]"]
  by (simp add: lookup_def num_array_def nullish_def practiceTotals_def get_prop_def animal_sum_def)

section \<open>Statistics: the slope of the trend line\<close>

lemma mean_sum: "mean xs = (if xs = [] then 0 else sum_list xs / real (length xs))"
  by (simp add: mean_def foldl_add_shift)

lemma foldl_pair:
  "foldl (\<lambda>(num, den) i. (num + f i, den + g i)) (a, b) is
     = (a + sum_list (map f is), b + sum_list (map g is :: real list))"
  by (induction "is" arbitrary: a b) (auto simp: algebra_simps)

lemma linearSlope_sums:
  "linearSlope ys = (if length ys < 2 then None
     else if Sxx (length ys) \<noteq> 0 then Some (Sxy ys / Sxx (length ys)) else None)"
proof -
  let ?n = "length ys"
  let ?mx = "mean (map real [0..<?n])"
  have a: "sum_list (map (\<lambda>i. (map real [0..<?n] ! i - ?mx) * (ys ! i - mean ys)) [0..<?n]) = Sxy ys"
    unfolding Sxy_def interv_sum_list_conv_sum_set_nat
    by (rule sum.cong) (auto simp: atLeast0LessThan)
  have b: "sum_list (map (\<lambda>i. (map real [0..<?n] ! i - ?mx) * (map real [0..<?n] ! i - ?mx)) [0..<?n]) = Sxx ?n"
    unfolding Sxx_def interv_sum_list_conv_sum_set_nat
    by (rule sum.cong) (auto simp: atLeast0LessThan power2_eq_square)
  show ?thesis
    unfolding linearSlope_def Let_def foldl_pair a b by simp
qed

text \<open>With two or more points the index positions are not all equal to their mean.\<close>

lemma Sxx_pos:
  assumes "2 \<le> n"
  shows "0 < Sxx n"
proof -
  let ?mx = "mean (map real [0..<n])"
  have "real 0 \<noteq> ?mx \<or> real 1 \<noteq> ?mx" by auto
  then have "\<exists>i<n. real i \<noteq> ?mx"
  proof
    assume "real 0 \<noteq> ?mx"
    moreover have "0 < n" using assms by simp
    ultimately show ?thesis by blast
  next
    assume "real 1 \<noteq> ?mx"
    moreover have "1 < n" using assms by simp
    ultimately show ?thesis by blast
  qed
  then obtain i where i: "i < n" "real i \<noteq> ?mx" by blast
  have "0 < (\<Sum>i\<in>{..<n}. (real i - ?mx)\<^sup>2)"
    by (rule sum_pos2[where i=i]) (use i in auto)
  then show ?thesis by (simp add: Sxx_def)
qed

lemma dev_sum_zero:
  assumes "xs \<noteq> []"
  shows "(\<Sum>i<length xs. (xs ! i - mean xs)) = (0::real)"
proof -
  have "(\<Sum>i<length xs. xs ! i) = sum_list xs"
    by (simp add: sum_list_sum_nth atLeast0LessThan)
  then show ?thesis using assms
    by (simp add: sum_subtractf mean_sum)
qed

text \<open>The squared error of any line, split around the two means.\<close>

lemma sse_decomp:
  assumes n: "ys \<noteq> []"
  defines "mx \<equiv> mean (map real [0..<length ys])" and "my \<equiv> mean ys"
  shows "sse ys a b = (\<Sum>i<length ys. (ys ! i - my)\<^sup>2) - 2 * b * Sxy ys + b\<^sup>2 * Sxx (length ys)
           + real (length ys) * (my - a - b * mx)\<^sup>2"
proof -
  let ?n = "length ys"
  define c where "c = my - a - b * mx"
  define dx where "dx = (\<lambda>i. real i - mx)"
  define dy where "dy = (\<lambda>i. ys ! i - my)"
  have dx0: "(\<Sum>i<?n. dx i) = 0"
  proof -
    have "(\<Sum>i<length (map real [0..<?n]). (map real [0..<?n] ! i - mean (map real [0..<?n]))) = 0"
      by (rule dev_sum_zero) (use n in simp)
    moreover have "(\<Sum>i<length (map real [0..<?n]). (map real [0..<?n] ! i - mean (map real [0..<?n])))
        = (\<Sum>i<?n. dx i)"
      by (rule sum.cong) (auto simp: mx_def dx_def)
    ultimately show ?thesis by simp
  qed
  have dy0: "(\<Sum>i<?n. dy i) = 0"
    unfolding my_def dy_def by (rule dev_sum_zero[OF n])
  have pt: "(ys ! i - (a + b * real i))\<^sup>2
      = (dy i)\<^sup>2 - (2 * b) * (dx i * dy i) + b\<^sup>2 * (dx i)\<^sup>2 + (2 * c) * dy i - (2 * c * b) * dx i + c\<^sup>2" for i
    by (simp add: power2_eq_square algebra_simps dx_def dy_def c_def)
  have "sse ys a b = (\<Sum>i<?n. (dy i)\<^sup>2 - (2 * b) * (dx i * dy i) + b\<^sup>2 * (dx i)\<^sup>2 + (2 * c) * dy i - (2 * c * b) * dx i + c\<^sup>2)"
    unfolding sse_def by (rule sum.cong) (auto simp: pt)
  also have "\<dots> = (\<Sum>i<?n. (dy i)\<^sup>2) - (2 * b) * (\<Sum>i<?n. dx i * dy i) + b\<^sup>2 * (\<Sum>i<?n. (dx i)\<^sup>2)
       + (2 * c) * (\<Sum>i<?n. dy i) - (2 * c * b) * (\<Sum>i<?n. dx i) + real ?n * c\<^sup>2"
    by (simp only: sum.distrib sum_subtractf sum_distrib_left[symmetric] sum_constant card_lessThan)
  also have "\<dots> = (\<Sum>i<?n. (dy i)\<^sup>2) - (2 * b) * (\<Sum>i<?n. dx i * dy i) + b\<^sup>2 * (\<Sum>i<?n. (dx i)\<^sup>2)
       + real ?n * c\<^sup>2"
    by (simp add: dx0 dy0)
  finally show ?thesis
    by (simp add: Sxy_def Sxx_def mx_def my_def dx_def dy_def c_def)
qed

text \<open>The least-squares slope is unique and is the quotient of the two sums.\<close>

lemma ols_char:
  assumes "2 \<le> length ys"
  shows "is_ols_slope ys b \<longleftrightarrow> b = Sxy ys / Sxx (length ys)"
proof -
  let ?n = "length ys"
  define mx where "mx = mean (map real [0..<?n])"
  define my where "my = mean ys"
  define Syy where "Syy = (\<Sum>i<?n. (ys ! i - my)\<^sup>2)"
  define b0 where "b0 = Sxy ys / Sxx ?n"
  have ne: "ys \<noteq> []" using assms by auto
  have pos: "0 < Sxx ?n" using assms by (rule Sxx_pos)
  have dec: "sse ys a b = Syy - Sxy ys * b0 + Sxx ?n * (b - b0)\<^sup>2 + real ?n * (my - a - b * mx)\<^sup>2" for a b
  proof -
    have "Syy - 2 * b * Sxy ys + b\<^sup>2 * Sxx ?n = Syy - Sxy ys * b0 + Sxx ?n * (b - b0)\<^sup>2"
      using pos unfolding b0_def by (simp add: power2_eq_square field_simps)
    then show ?thesis
      using sse_decomp[OF ne, of a b] by (simp add: Syy_def my_def mx_def)
  qed
  have min: "sse ys (my - b0 * mx) b0 = Syy - Sxy ys * b0"
    by (simp add: dec)
  show ?thesis
  proof
    assume "is_ols_slope ys b"
    then obtain a where a: "\<And>a' b'. sse ys a b \<le> sse ys a' b'"
      by (auto simp: is_ols_slope_def)
    have "sse ys a b \<le> Syy - Sxy ys * b0" using a[of "my - b0 * mx" b0] min by simp
    then have "Sxx ?n * (b - b0)\<^sup>2 + real ?n * (my - a - b * mx)\<^sup>2 \<le> 0"
      by (simp add: dec)
    moreover have "0 \<le> real ?n * (my - a - b * mx)\<^sup>2" by simp
    ultimately have "Sxx ?n * (b - b0)\<^sup>2 \<le> 0" by linarith
    with pos have "(b - b0)\<^sup>2 \<le> 0"
      by (simp add: mult_le_0_iff)
    then show "b = Sxy ys / Sxx ?n" by (simp add: b0_def)
  next
    assume "b = Sxy ys / Sxx ?n"
    then have b: "b = b0" by (simp add: b0_def)
    have "sse ys (my - b0 * mx) b0 \<le> sse ys a' b'" for a' b'
    proof -
      have "0 \<le> Sxx ?n * (b' - b0)\<^sup>2 + real ?n * (my - a' - b' * mx)\<^sup>2"
        using pos by (simp add: less_imp_le)
      then show ?thesis unfolding min by (simp add: dec)
    qed
    then show "is_ols_slope ys b" unfolding is_ols_slope_def b by blast
  qed
qed

lemma linearSlope_1234: "linearSlope [1, 2, 3, 4] = Some 1"
  by (simp add: linearSlope_def mean_def Let_def)

text \<open>
  C7. \<^verbatim>\<open>linearSlope(ys)\<close> is \<^verbatim>\<open>null\<close> exactly when \<open>ys\<close> has fewer than two elements;
  otherwise it is the ordinary-least-squares slope of \<open>ys\<close> against the index positions
  (the index variance is positive there, so the division always happens). It is 1 on
  1, 2, 3, 4 and \<^verbatim>\<open>null\<close> on the single value 5.
\<close>

theorem linearSlope_ols:
  "(linearSlope ys = None \<longleftrightarrow> length ys < 2)
   \<and> (2 \<le> length ys \<longrightarrow> (\<forall>b. linearSlope ys = Some b \<longleftrightarrow> is_ols_slope ys b))
   \<and> linearSlope [1, 2, 3, 4] = Some 1 \<and> linearSlope [5] = None"
proof (intro conjI)
  show "linearSlope ys = None \<longleftrightarrow> length ys < 2"
    using Sxx_pos[of "length ys"] by (cases "length ys < 2") (auto simp: linearSlope_sums)
  show "2 \<le> length ys \<longrightarrow> (\<forall>b. linearSlope ys = Some b \<longleftrightarrow> is_ols_slope ys b)"
    using Sxx_pos[of "length ys"] by (auto simp: linearSlope_sums ols_char)
  show "linearSlope [5] = None"
    by (simp add: linearSlope_def)
qed (rule linearSlope_1234)

theorem linearSlope_ols_witness:
  "2 \<le> length [1, 2, 3, 4 :: real] \<and> linearSlope [1, 2, 3, 4] = Some 1 \<and> is_ols_slope [1, 2, 3, 4] 1"
proof -
  have len: "2 \<le> length [1, 2, 3, 4 :: real]" by simp
  from linearSlope_ols [of "[1, 2, 3, 4]"]
  have "\<forall>b. linearSlope [1, 2, 3, 4] = Some b \<longleftrightarrow> is_ols_slope [1, 2, 3, 4] b"
    and one: "linearSlope [1, 2, 3, 4] = Some 1"
    using len by blast+
  then have "is_ols_slope [1, 2, 3, 4] 1" by blast
  with len one show ?thesis by blast
qed

section \<open>Copying properties onto an object\<close>

lemma assign_Obj: "assign (Obj d) src = Obj (foldl (\<lambda>t (k, v). AList.update k v t) d (own_props src))"
proof -
  have "foldl (\<lambda>t (k, v). with_field t k v) (Obj d) qs = Obj (foldl (\<lambda>t (k, v). AList.update k v t) d qs)" for qs
    by (induction qs arbitrary: d) auto
  then show ?thesis by (simp add: assign_def)
qed

section \<open>Scoring: the maximum of a competition record\<close>

text \<open>
  C3, as the code has it. \<^verbatim>\<open>competitionMax\<close> returns \<^verbatim>\<open>null\<close> for a record with round
  \<^verbatim>\<open>animal\<close>; for a bullseye record it returns 200 when the category is \<^verbatim>\<open>cub\<close> or
  \<^verbatim>\<open>beginner\<close>, 600 when the category is \<^verbatim>\<open>junior\<close>, \<^verbatim>\<open>senior\<close>, \<^verbatim>\<open>adult\<close> or absent
  (a falsy category counts as \<^verbatim>\<open>adult\<close>), 50 times the number of entries of \<^verbatim>\<open>m10\<close> and
  \<^verbatim>\<open>m15\<close> only when the category is some other value and the format is \<^verbatim>\<open>legacy\<close>, and
  \<^verbatim>\<open>null\<close> otherwise. The category is looked at before the format.
\<close>

theorem competitionMax_cases:
  "(field c1 ''round'' = Str ''animal'' \<longrightarrow> competitionMax c1 = Inr None)
   \<and> (field c2 ''round'' = Str ''bullseye''
        \<and> (field c2 ''category'' = Str ''cub'' \<or> field c2 ''category'' = Str ''beginner'')
      \<longrightarrow> competitionMax c2 = Inr (Some 200))
   \<and> (field c3 ''round'' = Str ''bullseye''
        \<and> (field c3 ''category'' = Str ''junior'' \<or> field c3 ''category'' = Str ''senior''
             \<or> field c3 ''category'' = Str ''adult'' \<or> \<not> truthy (field c3 ''category''))
      \<longrightarrow> competitionMax c3 = Inr (Some 600))
   \<and> (field c4 ''round'' = Str ''bullseye'' \<and> truthy (field c4 ''category'')
        \<and> field c4 ''category'' \<notin> {Str ''cub'', Str ''beginner'', Str ''junior'', Str ''senior'', Str ''adult''}
        \<and> field (field c4 ''bullseye'') ''format'' = Str ''legacy''
        \<and> isArray (field (field c4 ''bullseye'') ''m10'') \<and> isArray (field (field c4 ''bullseye'') ''m15'')
      \<longrightarrow> competitionMax c4
          = Inr (Some (real (length (elems (field (field c4 ''bullseye'') ''m10''))
                            + length (elems (field (field c4 ''bullseye'') ''m15''))) * 50)))
   \<and> (field c5 ''round'' = Str ''bullseye'' \<and> truthy (field c5 ''category'')
        \<and> field c5 ''category'' \<notin> {Str ''cub'', Str ''beginner'', Str ''junior'', Str ''senior'', Str ''adult''}
        \<and> field (field c5 ''bullseye'') ''format'' \<noteq> Str ''legacy''
      \<longrightarrow> competitionMax c5 = Inr None)
   \<and> (\<not> nullish c6 \<and> field c6 ''round'' \<noteq> Str ''animal'' \<and> field c6 ''round'' \<noteq> Str ''bullseye''
      \<longrightarrow> competitionMax c6 = Inr None)"
proof (intro conjI impI)
  assume h: "field c1 ''round'' = Str ''animal''"
  then have "\<not> nullish c1" by (rule field_not_nullish)
  with h show "competitionMax c1 = Inr None"
    by (simp add: competitionMax_def get_prop_field)
next
  assume h: "field c2 ''round'' = Str ''bullseye''
        \<and> (field c2 ''category'' = Str ''cub'' \<or> field c2 ''category'' = Str ''beginner'')"
  then have "\<not> nullish c2" by (auto dest: field_not_nullish)
  with h show "competitionMax c2 = Inr (Some 200)"
    by (auto simp: competitionMax_def get_prop_field)
next
  assume h: "field c3 ''round'' = Str ''bullseye''
        \<and> (field c3 ''category'' = Str ''junior'' \<or> field c3 ''category'' = Str ''senior''
             \<or> field c3 ''category'' = Str ''adult'' \<or> \<not> truthy (field c3 ''category''))"
  then have "\<not> nullish c3" by (auto dest: field_not_nullish)
  with h show "competitionMax c3 = Inr (Some 600)"
    by (auto simp: competitionMax_def get_prop_field)
next
  assume h: "field c4 ''round'' = Str ''bullseye'' \<and> truthy (field c4 ''category'')
        \<and> field c4 ''category'' \<notin> {Str ''cub'', Str ''beginner'', Str ''junior'', Str ''senior'', Str ''adult''}
        \<and> field (field c4 ''bullseye'') ''format'' = Str ''legacy''
        \<and> isArray (field (field c4 ''bullseye'') ''m10'') \<and> isArray (field (field c4 ''bullseye'') ''m15'')"
  then have nn: "\<not> nullish c4" "\<not> nullish (field c4 ''bullseye'')"
    by (auto dest: field_not_nullish)
  then have g: "get_prop c4 k = Inr (field c4 k)"
      "get_prop (field c4 ''bullseye'') k = Inr (field (field c4 ''bullseye'') k)" for k
    by (simp_all add: get_prop_field)
  from h nn show "competitionMax c4
          = Inr (Some (real (length (elems (field (field c4 ''bullseye'') ''m10''))
                            + length (elems (field (field c4 ''bullseye'') ''m15''))) * 50))"
    by (simp add: competitionMax_def g opt_chain_def array_len_def)
next
  assume h: "field c5 ''round'' = Str ''bullseye'' \<and> truthy (field c5 ''category'')
        \<and> field c5 ''category'' \<notin> {Str ''cub'', Str ''beginner'', Str ''junior'', Str ''senior'', Str ''adult''}
        \<and> field (field c5 ''bullseye'') ''format'' \<noteq> Str ''legacy''"
  then have "\<not> nullish c5" by (auto dest: field_not_nullish)
  then have g: "get_prop c5 k = Inr (field c5 k)" for k
    by (simp add: get_prop_field)
  have "opt_chain (field c5 ''bullseye'') ''format'' \<noteq> Str ''legacy''"
    using h by (simp add: opt_chain_def)
  with h show "competitionMax c5 = Inr None"
    by (simp add: competitionMax_def g)
next
  assume "\<not> nullish c6 \<and> field c6 ''round'' \<noteq> Str ''animal'' \<and> field c6 ''round'' \<noteq> Str ''bullseye''"
  then show "competitionMax c6 = Inr None"
    by (simp add: competitionMax_def get_prop_field)
qed

theorem competitionMax_cases_witness:
  "competitionMax (Obj [(''round'', Str ''animal''), (''category'', Null)]) = Inr None
   \<and> competitionMax (Obj [(''round'', Str ''bullseye''), (''category'', Str ''cub'')]) = Inr (Some 200)
   \<and> competitionMax (Obj [(''round'', Str ''bullseye''), (''bullseye'', Obj [(''format'', Str ''2sets'')])])
       = Inr (Some 600)
   \<and> competitionMax (Obj [(''round'', Str ''bullseye''), (''category'', Str ''open''),
         (''bullseye'', Obj [(''format'', Str ''legacy''), (''m10'', Arr [Num 140] []), (''m15'', Arr [Num 120] [])])])
       = Inr (Some 100)
   \<and> competitionMax (Obj [(''round'', Str ''bullseye''), (''category'', Str ''open''),
         (''bullseye'', Obj [(''format'', Str ''2sets'')])])
       = Inr None
   \<and> competitionMax (Obj [(''round'', Str ''field'')]) = Inr None"
  using competitionMax_cases [where
        ?c1.0 = "Obj [(''round'', Str ''animal''), (''category'', Null)]"
    and ?c2.0 = "Obj [(''round'', Str ''bullseye''), (''category'', Str ''cub'')]"
    and ?c3.0 = "Obj [(''round'', Str ''bullseye''), (''bullseye'', Obj [(''format'', Str ''2sets'')])]"
    and ?c4.0 = "Obj [(''round'', Str ''bullseye''), (''category'', Str ''open''),
         (''bullseye'', Obj [(''format'', Str ''legacy''), (''m10'', Arr [Num 140] []), (''m15'', Arr [Num 120] [])])]"
    and ?c5.0 = "Obj [(''round'', Str ''bullseye''), (''category'', Str ''open''),
         (''bullseye'', Obj [(''format'', Str ''2sets'')])]"
    and ?c6.0 = "Obj [(''round'', Str ''field'')]"]
  by (simp add: lookup_def nullish_def)

text \<open>
  The migration of the older schema gives the record the category \<^verbatim>\<open>adult\<close>, so its
  maximum is 600 and not 50 times its two entries.
\<close>

lemma migrated: "normalize_doc sample_env old_schema_doc =
  Obj [(''profiles'', Arr [Obj [(''id'', Str ''u0''), (''name'', Str ''Archer 1''), (''createdAt'', Str ''2024-01-01T00:00:00.000Z'')]] []),
       (''activeProfileId'', Str ''u0''),
       (''practice'', Arr [] []),
       (''competitions'', Arr [Obj [(''id'', Str ''c1''), (''date'', Str ''2023-05-01''),
           (''event'', Str ''Regional''), (''round'', Str ''bullseye''),
           (''bullseye'', Obj [(''format'', Str ''legacy''), (''m10'', Arr [Num 140] []), (''m15'', Arr [Num 120] [])]),
           (''profileId'', Str ''u0''), (''category'', Str ''adult'')]] []),
       (''aimMaps'', Arr [] []),
       (''settings'', Obj [(''animalScoring'', Str ''nasp3d'')])]"
  by code_simp

theorem competitionMax_migrated_counterexample:
  "field (field (hd (elems (field (normalize_doc sample_env old_schema_doc) ''competitions''))) ''bullseye'') ''format''
     = Str ''legacy''
   \<and> field (field (hd (elems (field (normalize_doc sample_env old_schema_doc) ''competitions''))) ''bullseye'') ''m10''
     = Arr [Num 140] []
   \<and> field (field (hd (elems (field (normalize_doc sample_env old_schema_doc) ''competitions''))) ''bullseye'') ''m15''
     = Arr [Num 120] []
   \<and> competitionMax (hd (elems (field (normalize_doc sample_env old_schema_doc) ''competitions'')))
     = Inr (Some 600)
   \<and> competitionMax (hd (elems (field (normalize_doc sample_env old_schema_doc) ''competitions'')))
     \<noteq> Inr (Some (real (length [Num 140] + length [Num 120]) * 50))"
  unfolding migrated
  by (simp add: lookup_def competitionMax_def get_prop_def nullish_def)

section \<open>Import\<close>

text \<open>
  C8. When the text of the imported file does not parse as JSON, the handler leaves the
  document in memory and the text in the storage slot as they were and reports the failure
  with an alert.
\<close>

theorem import_malformed_keeps_document:
  "parse text = None \<Longrightarrow>
     importFile_change parse fmt renders e (FileText text) w = w\<lparr>alerts := alerts w @ [import_failed]\<rparr>
     \<and> state (importFile_change parse fmt renders e (FileText text) w) = state w
     \<and> slot (importFile_change parse fmt renders e (FileText text) w) = slot w
     \<and> alerts (importFile_change parse fmt renders e (FileText text) w) = alerts w @ [import_failed]"
  by (simp add: importFile_change_def import_doc_def)

theorem import_malformed_keeps_document_witness:
  "(Map.empty ''{bad'' :: jsv option) = None
   \<and> state (importFile_change Map.empty sample_fmt (\<lambda>d. True) sample_env (FileText ''{bad'')
        (sample_world two_profiles_doc)) = two_profiles_doc
   \<and> slot (importFile_change Map.empty sample_fmt (\<lambda>d. True) sample_env (FileText ''{bad'')
        (sample_world two_profiles_doc)) = Some (stringify sample_fmt [] two_profiles_doc)
   \<and> alerts (importFile_change Map.empty sample_fmt (\<lambda>d. True) sample_env (FileText ''{bad'')
        (sample_world two_profiles_doc)) = [import_failed]"
  using import_malformed_keeps_document [of Map.empty "''{bad''" sample_fmt "\<lambda>d. True" sample_env
      "sample_world two_profiles_doc"]
  by (simp add: sample_world_def)

section \<open>The filters of the delete handler\<close>

lemma bnd_InrE:
  assumes "bnd m f = Inr y"
  obtains x where "m = Inr x" "f x = Inr y"
  using assms by (cases m) (auto simp: bnd_def)

lemma lookup_update: "lookup (AList.update k v ps) k' = (if k' = k then v else lookup ps k')"
  by (simp add: lookup_def update_conv')

lemma field_with_field:
  "container st \<Longrightarrow> field (with_field st k v) k' = (if k' = k then v else field st k')"
  by (cases st) (auto simp: container_def lookup_update)

lemma container_with_field [simp]: "container (with_field st k v) = container st"
  by (cases st) (auto simp: container_def)

lemma field_container: "field st k \<noteq> Undefined \<Longrightarrow> container st"
  by (cases st) (auto simp: container_def)

lemma container_not_nullish: "container st \<Longrightarrow> \<not> nullish st"
  by (cases st) (auto simp: container_def nullish_def)


lemma filterE_keeps:
  "filterE f xs = Inr ys \<Longrightarrow> x \<in> set xs \<Longrightarrow> f x = Inr True \<Longrightarrow> x \<in> set ys"
proof (induction xs arbitrary: ys)
  case Nil
  then show ?case by simp
next
  case (Cons a xs)
  then show ?case
    by (auto simp: bnd_def split: sum.splits if_splits)
qed

lemma filterE_defined:
  "filterE f xs = Inr ys \<Longrightarrow> x \<in> set xs \<Longrightarrow> \<exists>b. f x = Inr b"
proof (induction xs arbitrary: ys)
  case Nil
  then show ?case by simp
next
  case (Cons a xs)
  then show ?case
    by (auto simp: bnd_def split: sum.splits if_splits)
qed








lemma saveState_state: "saveState fmt (w\<lparr>state := st\<rparr>) = w\<lparr>state := st, slot := Some (stringify fmt [] st)\<rparr>"
  by (simp add: saveState_def)

lemma reassign_active_field:
  assumes "reassign_active pid st = Inr st'" "container st" "k \<noteq> ''activeProfileId''"
  shows "field st' k = field st k"
proof -
  from assms(1) have "st' = st \<or> (\<exists>j. st' = with_field st ''activeProfileId'' j)"
    by (auto simp: reassign_active_def elim!: bnd_InrE split: if_splits)
  with assms(2,3) show ?thesis by (auto simp: field_with_field)
qed

section \<open>Property lists\<close>

lemma update_fresh: "k \<notin> fst ` set al \<Longrightarrow> AList.update k v al = al @ [(k, v)]"
  by (induction al) auto

lemma update_append_fresh:
  "k \<notin> fst ` set xs \<Longrightarrow> AList.update k v (xs @ ys) = xs @ AList.update k v ys"
  by (induction xs) auto

lemma update_twice: "AList.update k v (AList.update k v' al) = AList.update k v al"
  by (induction al) auto

lemma update_same:
  assumes "k \<in> fst ` set al" "lookup al k = v"
  shows "AList.update k v al = al"
proof -
  from assms(1) have "map_of al k \<noteq> None" by (simp add: map_of_eq_None_iff)
  then obtain v' where "map_of al k = Some v'" by blast
  with assms(2) have "map_of al k = Some v" by (simp add: lookup_def)
  then show ?thesis by (rule update_triv)
qed

lemma update_fixed:
  assumes "AList.update k v al = al"
  shows "k \<in> fst ` set al \<and> lookup al k = v"
proof -
  have "k \<in> fst ` set al"
  proof (rule ccontr)
    assume "k \<notin> fst ` set al"
    then have "length (AList.update k v al) = Suc (length al)" by (simp add: update_fresh)
    with assms show False by simp
  qed
  moreover have "lookup (AList.update k v al) k = v" by (simp add: lookup_update)
  ultimately show ?thesis using assms by simp
qed

text \<open>Copying a property list over a target that already starts with its first names.\<close>

lemma foldl_update_same:
  "distinct (map fst (xs @ ps)) \<Longrightarrow> map fst d = take (length d) (map fst ps) \<Longrightarrow>
     foldl (\<lambda>t (k, v). AList.update k v t) (xs @ d) ps = xs @ ps"
proof (induction ps arbitrary: xs d)
  case Nil
  then show ?case by simp
next
  case (Cons kv ps)
  obtain k v where kv: "kv = (k, v)" by (cases kv)
  from Cons.prems(1) have fresh: "k \<notin> fst ` set xs" and
    dist: "distinct (map fst ((xs @ [(k, v)]) @ ps))"
    by (auto simp: kv)
  show ?case
  proof (cases d)
    case Nil
    have "foldl (\<lambda>t (k, v). AList.update k v t) ((xs @ [(k, v)]) @ []) ps = (xs @ [(k, v)]) @ ps"
      by (rule Cons.IH[OF dist]) simp
    then show ?thesis using fresh by (simp add: Nil kv update_fresh)
  next
    case (Cons kv' d')
    with Cons.prems(2) have k': "fst kv' = k" and d': "map fst d' = take (length d') (map fst ps)"
      by (auto simp: kv)
    have "foldl (\<lambda>t (k, v). AList.update k v t) ((xs @ [(k, v)]) @ d') ps = (xs @ [(k, v)]) @ ps"
      by (rule Cons.IH[OF dist d'])
    moreover have "AList.update k v (xs @ kv' # d') = (xs @ [(k, v)]) @ d'"
      using fresh k' by (cases kv') (simp add: update_append_fresh)
    ultimately show ?thesis by (simp add: Cons kv)
  qed
qed

lemma update_keeps_start:
  assumes "distinct (map fst t)" "take n (map fst t) = ks" "length ks = n"
  shows "distinct (map fst (AList.update k v t)) \<and> take n (map fst (AList.update k v t)) = ks"
proof -
  from assms(2,3) have "n \<le> length (map fst t)"
    by (metis length_take min.cobounded1 min.commute)
  then show ?thesis using assms
    by (auto simp: update_keys distinct_update)
qed

lemma foldl_update_keeps_start:
  "distinct (map fst t) \<Longrightarrow> take n (map fst t) = ks \<Longrightarrow> length ks = n \<Longrightarrow>
     distinct (map fst (foldl (\<lambda>t (k, v). AList.update k v t) t xs))
     \<and> take n (map fst (foldl (\<lambda>t (k, v). AList.update k v t) t xs)) = ks"
proof (induction xs arbitrary: t)
  case Nil
  then show ?case by simp
next
  case (Cons kv xs)
  obtain k v where kv: "kv = (k, v)" by (cases kv)
  from update_keeps_start[OF Cons.prems, of k v]
  have "distinct (map fst (AList.update k v t))" "take n (map fst (AList.update k v t)) = ks"
    by auto
  from Cons.IH[OF this Cons.prems(3)] show ?case by (simp add: kv)
qed

section \<open>Objects\<close>

lemma is_obj_container: "is_obj st \<Longrightarrow> container st"
  by (cases st) (auto simp: container_def)

lemma truthy_with_field [simp]: "truthy (with_field v k x) = truthy v"
  by (cases v) auto

lemma container_truthy: "container v \<Longrightarrow> truthy v"
  by (cases v) (auto simp: container_def)

lemma truthy_field_container: "truthy (field v k) \<Longrightarrow> container v"
  by (cases v) (auto simp: container_def)

lemma keys_with_field:
  "keys_of (with_field st k v) =
     (if container st \<and> k \<notin> set (keys_of st) then keys_of st @ [k] else keys_of st)"
  by (cases st) (auto simp: keys_of_def container_def update_keys)

lemma is_obj_with_field [simp]: "is_obj (with_field st k v) = is_obj st"
  by (cases st) auto

lemma with_field_same:
  "k \<in> set (keys_of st) \<Longrightarrow> field st k = v \<Longrightarrow> with_field st k v = st"
  by (cases st) (auto simp: keys_of_def update_same)

lemma with_field_fixed:
  "with_field st k v = st \<Longrightarrow> container st \<Longrightarrow> k \<in> set (keys_of st) \<and> field st k = v"
  by (cases st) (auto simp: keys_of_def container_def dest: update_fixed)

lemma with_field_twice [simp]: "with_field (with_field st k v') k v = with_field st k v"
  by (cases st) (auto simp: update_twice)

lemma starts_with_key: "starts_with ks st \<Longrightarrow> k \<in> set ks \<Longrightarrow> k \<in> set (keys_of st)"
  unfolding starts_with_def by (metis in_set_takeD)

lemma starts_with_container: "starts_with ks st \<Longrightarrow> container st"
  by (simp add: starts_with_def is_obj_container)

lemma starts_with_with_field:
  assumes "starts_with ks st"
  shows "starts_with ks (with_field st k v)"
proof -
  from assms obtain ps where st: "st = Obj ps" by (cases st) (auto simp: starts_with_def)
  from assms have "distinct (map fst ps)" "take (length ks) (map fst ps) = ks"
    by (auto simp: starts_with_def st keys_of_def)
  from update_keeps_start[OF this refl, of k v] show ?thesis
    by (simp add: starts_with_def st keys_of_def)
qed

lemma starts_with_assign:
  assumes "starts_with ks tgt"
  shows "starts_with ks (assign tgt src)"
proof -
  from assms obtain d where tgt: "tgt = Obj d" by (cases tgt) (auto simp: starts_with_def)
  from assms have "distinct (map fst d)" "take (length ks) (map fst d) = ks"
    by (auto simp: starts_with_def tgt keys_of_def)
  from foldl_update_keeps_start[OF this refl, of "own_props src"] show ?thesis
    by (simp add: starts_with_def tgt keys_of_def assign_Obj)
qed

lemma assign_same:
  assumes "starts_with (map fst d) st"
  shows "assign (Obj d) st = st"
proof -
  from assms obtain ps where st: "st = Obj ps" by (cases st) (auto simp: starts_with_def)
  from assms have "distinct (map fst ([] @ ps))" "map fst d = take (length d) (map fst ps)"
    by (auto simp: starts_with_def st keys_of_def)
  from foldl_update_same[OF this] show ?thesis
    by (simp add: st assign_Obj)
qed

lemma field_for_each:
  "container st \<Longrightarrow> field (for_each k f st) k' = (if k' = k then map_elems f (field st k) else field st k')"
  by (simp add: for_each_def field_with_field)

lemma starts_with_for_each: "starts_with ks st \<Longrightarrow> starts_with ks (for_each k f st)"
  by (simp add: for_each_def starts_with_with_field)

lemma map_elems_id: "\<forall>r\<in>set (elems v). f r = r \<Longrightarrow> map_elems f v = v"
  by (cases v) (auto simp: map_idI)

lemma elems_map_elems: "elems (map_elems f v) = map f (elems v)"
  by (cases v) auto

lemma isArray_map_elems [simp]: "isArray (map_elems f v) = isArray v"
  by (cases v) auto

section \<open>The callbacks of the load loops\<close>

lemma backfill_twice: "backfill pid (backfill pid r) = backfill pid r"
proof (cases "truthy r \<and> \<not> truthy (field r ''profileId'')")
  case False
  then have "backfill pid r = r" by (auto simp: backfill_def)
  then show ?thesis by simp
next
  case True
  show ?thesis
  proof (cases "container r")
    case c: True
    then show ?thesis using True
      by (simp add: backfill_def field_with_field)
  next
    case False
    then have "with_field r ''profileId'' pid = r" by (cases r) (auto simp: container_def)
    then show ?thesis by (simp add: backfill_def)
  qed
qed

text \<open>An assignment to another property does not undo the back-fill.\<close>

lemma backfill_with_field:
  assumes "backfill pid s = s" "k \<noteq> ''profileId''"
  shows "backfill pid (with_field s k v) = with_field s k v"
proof (cases "container s")
  case False
  then have "with_field s k v = s" by (cases s) (auto simp: container_def)
  with assms show ?thesis by simp
next
  case c: True
  show ?thesis
  proof (cases "truthy (field s ''profileId'')")
    case True
    with c assms(2) show ?thesis by (simp add: backfill_def field_with_field)
  next
    case False
    with c assms(1) have "with_field s ''profileId'' pid = s"
      by (simp add: backfill_def container_truthy)
    from with_field_fixed[OF this c]
    have "''profileId'' \<in> set (keys_of s)" "field s ''profileId'' = pid" by auto
    then have "''profileId'' \<in> set (keys_of (with_field s k v))" "field (with_field s k v) ''profileId'' = pid"
      using c assms(2) by (auto simp: keys_with_field field_with_field)
    then have "with_field (with_field s k v) ''profileId'' pid = with_field s k v"
      by (rule with_field_same)
    then show ?thesis by (simp add: backfill_def)
  qed
qed

lemma backfill_migrate_practice:
  "backfill pid s = s \<Longrightarrow> backfill pid (migrate_practice s) = migrate_practice s"
  by (simp add: migrate_practice_def backfill_with_field)

lemma backfill_migrate_comp:
  "backfill pid c = c \<Longrightarrow> backfill pid (migrate_comp c) = migrate_comp c"
  by (simp add: migrate_comp_def Let_def backfill_with_field)

lemma bullseye_lists_truthy [simp]: "truthy (bullseye_lists b) = truthy b"
  by (simp add: bullseye_lists_def Let_def)

lemma bullseye_lists_arrays:
  assumes "container b"
  shows "isArray (field (bullseye_lists b) ''m10'') \<and> isArray (field (bullseye_lists b) ''m15'')"
  using assms by (simp add: bullseye_lists_def Let_def field_with_field)

lemma bullseye_lists_fixed:
  "isArray (field b ''m10'') \<Longrightarrow> isArray (field b ''m15'') \<Longrightarrow> bullseye_lists b = b"
  by (cases "field b ''m10''"; cases "field b ''m15''") (simp_all add: bullseye_lists_def Let_def)

lemma bullseye_lists_primitive: "\<not> container b \<Longrightarrow> bullseye_lists b = b"
  by (cases b) (auto simp: container_def bullseye_lists_def Let_def)

lemma bullseye_lists_twice: "bullseye_lists (bullseye_lists b) = bullseye_lists b"
proof (cases "container b")
  case True
  from bullseye_lists_arrays[OF this] show ?thesis by (simp add: bullseye_lists_fixed)
next
  case False
  then show ?thesis by (simp add: bullseye_lists_primitive)
qed

lemma migrate_practice_twice: "migrate_practice (migrate_practice s) = migrate_practice s"
proof (cases "truthy s \<and> truthy (field s ''bullseye'')")
  case False
  then have "migrate_practice s = s" by (auto simp: migrate_practice_def)
  then show ?thesis by simp
next
  case True
  then have c: "container s" by (auto dest: truthy_field_container)
  with True show ?thesis
    by (simp add: migrate_practice_def field_with_field bullseye_lists_twice)
qed

lemma migrate_comp_twice: "migrate_comp (migrate_comp c) = migrate_comp c"
proof (cases "truthy c \<and> strict_eq (field c ''round'') (Str ''bullseye'') \<and> truthy (field c ''bullseye'')")
  case False
  then have "migrate_comp c = c" by (auto simp: migrate_comp_def)
  then show ?thesis by simp
next
  case True
  then have c: "container c" by (auto dest: truthy_field_container)
  show ?thesis
  proof (cases "is_number (field (field c ''bullseye'') ''m10'') \<or> is_number (field (field c ''bullseye'') ''m15'')")
    case False
    with True have "migrate_comp c = c" by (auto simp: migrate_comp_def Let_def)
    then show ?thesis by simp
  next
    case n: True
    define L where "L = Obj [(''format'', Str ''legacy''),
        (''m10'', Arr [if is_number (field (field c ''bullseye'') ''m10'') then field (field c ''bullseye'') ''m10'' else Num 0] []),
        (''m15'', Arr [if is_number (field (field c ''bullseye'') ''m15'') then field (field c ''bullseye'') ''m15'' else Num 0] [])]"
    define c1 where "c1 = with_field c ''bullseye'' L"
    define c2 where "c2 = (if \<not> truthy (field c1 ''category'') then with_field c1 ''category'' (Str ''adult'') else c1)"
    have m: "migrate_comp c = c2"
      using True n by (simp add: migrate_comp_def Let_def c2_def c1_def L_def)
    have c1c: "container c1" using c by (simp add: c1_def)
    have "field c2 ''bullseye'' = L" "field c2 ''round'' = field c ''round''" "truthy c2"
      using c c1c True by (auto simp: c2_def c1_def field_with_field)
    moreover have "\<not> is_number (field L ''m10'')" "\<not> is_number (field L ''m15'')" "truthy L"
      by (simp_all add: L_def lookup_def)
    ultimately have "migrate_comp c2 = c2"
      using True by (simp add: migrate_comp_def Let_def)
    then show ?thesis by (simp add: m)
  qed
qed

section \<open>Normalization\<close>

lemma starts_with_defaultState: "starts_with default_keys (defaultState e k)"
  by (simp add: starts_with_def defaultState_def default_keys_def keys_of_def)

lemma defaultState_Obj: "\<exists>d. defaultState e k = Obj d \<and> map fst d = default_keys"
  by (simp add: defaultState_def default_keys_def)

lemma assign_defaultState_same:
  assumes "starts_with default_keys st"
  shows "assign (defaultState e k) st = st"
proof -
  obtain d where d: "defaultState e k = Obj d" "map fst d = default_keys"
    using defaultState_Obj by blast
  from assms show ?thesis unfolding d(1) by (intro assign_same) (simp add: d(2))
qed

lemma assign_defaultSettings_same:
  "starts_with [''animalScoring''] s \<Longrightarrow> assign defaultSettings s = s"
  unfolding defaultSettings_def by (intro assign_same) simp

lemma starts_with_settings: "starts_with [''animalScoring''] (assign defaultSettings x)"
  by (rule starts_with_assign) (simp add: starts_with_def defaultSettings_def keys_of_def)

lemma starts_with_truthy: "starts_with ks st \<Longrightarrow> truthy st"
  by (simp add: starts_with_container container_truthy)

lemma coerce_list_isArray [simp]: "isArray (coerce_list v)"
  by (simp add: coerce_list_def)

lemma coerce_list_same: "isArray v \<Longrightarrow> coerce_list v = v"
  by (simp add: coerce_list_def)

lemma starts_with_synth: "starts_with ks st \<Longrightarrow> starts_with ks (synth_profiles e k st)"
  by (simp add: synth_profiles_def starts_with_with_field)

lemma field_synth:
  "container st \<Longrightarrow> k' \<noteq> ''profiles'' \<Longrightarrow> k' \<noteq> ''activeProfileId'' \<Longrightarrow>
     field (synth_profiles e k st) k' = field st k'"
  by (simp add: synth_profiles_def field_with_field)

lemma has_profiles_synth:
  "container st \<Longrightarrow> \<not> no_profiles (field (synth_profiles e k st) ''profiles'')"
  by (simp add: synth_profiles_def field_with_field no_profiles_def)

text \<open>What the first part of the load leaves.\<close>

lemma merge_defaults_result:
  assumes "merge_defaults e d = Inr st"
  shows "starts_with default_keys st
     \<and> starts_with [''animalScoring''] (field st ''settings'')
     \<and> isArray (field st ''practice'') \<and> isArray (field st ''competitions'') \<and> isArray (field st ''aimMaps'')
     \<and> \<not> no_profiles (field st ''profiles'')"
proof -
  define st0 where "st0 = assign (defaultState e 0) d"
  define ps where "ps = field d ''settings''"
  define st1 where "st1 = with_field st0 ''settings'' (assign defaultSettings (if truthy ps then ps else Obj []))"
  define st2 where "st2 = with_field st1 ''practice'' (coerce_list (field st1 ''practice''))"
  define st3 where "st3 = with_field st2 ''competitions'' (coerce_list (field st2 ''competitions''))"
  define st4 where "st4 = with_field st3 ''aimMaps'' (coerce_list (field st3 ''aimMaps''))"
  from assms have st: "st = synth_profiles e 2 st4"
    by (auto simp: merge_defaults_def Let_def get_prop_def st0_def ps_def st1_def st2_def st3_def st4_def
        split: if_splits)
  have s0: "starts_with default_keys st0"
    unfolding st0_def by (rule starts_with_assign[OF starts_with_defaultState])
  then have s1: "starts_with default_keys st1" unfolding st1_def by (rule starts_with_with_field)
  then have s2: "starts_with default_keys st2" unfolding st2_def by (rule starts_with_with_field)
  then have s3: "starts_with default_keys st3" unfolding st3_def by (rule starts_with_with_field)
  then have s4: "starts_with default_keys st4" unfolding st4_def by (rule starts_with_with_field)
  note c = s0[THEN starts_with_container] s1[THEN starts_with_container] s2[THEN starts_with_container]
    s3[THEN starts_with_container] s4[THEN starts_with_container]
  have f1: "field st4 ''settings'' = assign defaultSettings (if truthy ps then ps else Obj [])"
    using c by (simp add: st4_def st3_def st2_def st1_def field_with_field)
  have f2: "isArray (field st4 ''practice'')"
    using c by (simp add: st4_def st3_def st2_def field_with_field)
  have f3: "isArray (field st4 ''competitions'')"
    using c by (simp add: st4_def st3_def field_with_field)
  have f4: "isArray (field st4 ''aimMaps'')"
    using c by (simp add: st4_def field_with_field)
  show ?thesis
    unfolding st using s4 c(5) f2 f3 f4
    by (simp add: starts_with_synth field_synth has_profiles_synth f1 starts_with_settings)
qed

lemma default_active_cases:
  assumes "default_active st = Inr st'"
  shows "(truthy (field st ''activeProfileId'') \<and> st' = st)
       \<or> (\<not> truthy (field st ''activeProfileId'')
           \<and> (\<exists>i. first_id st = Inr i \<and> st' = with_field st ''activeProfileId'' i))"
proof (cases "truthy (field st ''activeProfileId'')")
  case True
  with assms show ?thesis by (simp add: default_active_def)
next
  case False
  with assms have "bnd (first_id st) (\<lambda>i. Inr (with_field st ''activeProfileId'' i)) = Inr st'"
    by (simp add: default_active_def)
  then obtain i where "first_id st = Inr i" "Inr (with_field st ''activeProfileId'' i) = (Inr st' :: error + jsv)"
    by (rule bnd_InrE)
  with False show ?thesis by simp
qed

lemma default_active_ok:
  assumes "default_active st = Inr st'" "container st"
  shows "active_ok st'"
proof (cases "truthy (field st ''activeProfileId'')")
  case True
  with default_active_cases[OF assms(1)] show ?thesis by (simp add: active_ok_def)
next
  case False
  with default_active_cases[OF assms(1)] obtain i
    where i: "first_id st = Inr i" "st' = with_field st ''activeProfileId'' i" by blast
  then have "field st' ''profiles'' = field st ''profiles''" "field st' ''activeProfileId'' = i"
    using assms(2) by (simp_all add: field_with_field)
  with i(1) show ?thesis by (simp add: active_ok_def first_id_def)
qed

lemma default_active_frame:
  assumes "default_active st = Inr st'" "container st" "k \<noteq> ''activeProfileId''"
  shows "field st' k = field st k"
  using default_active_cases[OF assms(1)] assms(2,3) by (auto simp: field_with_field)

lemma default_active_starts:
  assumes "default_active st = Inr st'" "starts_with ks st"
  shows "starts_with ks st'"
  using default_active_cases[OF assms(1)] assms(2) by (auto simp: starts_with_with_field)

lemma active_ok_cong:
  "field st' ''profiles'' = field st ''profiles'' \<Longrightarrow>
   field st' ''activeProfileId'' = field st ''activeProfileId'' \<Longrightarrow> active_ok st' = active_ok st"
  by (simp add: active_ok_def first_id_def)

text \<open>What the loops leave: the fields of the result.\<close>

lemma backfill_and_migrate_fields:
  assumes "container st"
  shows "field (backfill_and_migrate st) ''practice''
           = map_elems migrate_practice (map_elems (backfill (field st ''activeProfileId'')) (field st ''practice''))"
    and "field (backfill_and_migrate st) ''competitions''
           = map_elems migrate_comp (map_elems (backfill (field st ''activeProfileId'')) (field st ''competitions''))"
    and "field (backfill_and_migrate st) ''aimMaps''
           = map_elems (backfill (field st ''activeProfileId'')) (field st ''aimMaps'')"
    and "k \<notin> {''practice'', ''competitions'', ''aimMaps''} \<Longrightarrow> field (backfill_and_migrate st) k = field st k"
  using assms
  by (simp_all add: backfill_and_migrate_def Let_def for_each_def field_with_field)

lemma backfill_and_migrate_starts:
  "starts_with ks st \<Longrightarrow> starts_with ks (backfill_and_migrate st)"
  by (simp add: backfill_and_migrate_def Let_def starts_with_for_each)

lemma normalize_normal:
  assumes "normalize_parsed e d = Inr st"
  shows "normal st"
proof -
  from assms obtain st5 st6 where m: "merge_defaults e d = Inr st5"
    and a: "default_active st5 = Inr st6" and st: "st = backfill_and_migrate st6"
    unfolding normalize_parsed_def by (elim bnd_InrE) auto
  note r5 = merge_defaults_result[OF m]
  from r5 have c5: "container st5" by (auto dest: starts_with_container)
  have s6: "starts_with default_keys st6" using a r5 by (auto intro: default_active_starts)
  then have c6: "container st6" by (rule starts_with_container)
  note fr = default_active_frame[OF a c5]
  note bm = backfill_and_migrate_fields[OF c6]
  let ?pid = "field st6 ''activeProfileId''"
  have pid: "field st ''activeProfileId'' = ?pid" unfolding st by (simp add: bm(4))
  have "starts_with default_keys st" unfolding st using s6 by (rule backfill_and_migrate_starts)
  moreover have "starts_with [''animalScoring''] (field st ''settings'')"
    unfolding st using r5 by (simp add: bm(4) fr)
  moreover have "isArray (field st ''practice'')" "isArray (field st ''competitions'')" "isArray (field st ''aimMaps'')"
    unfolding st using r5 by (simp_all add: bm fr)
  moreover have "\<not> no_profiles (field st ''profiles'')"
    unfolding st using r5 by (simp add: bm(4) fr)
  moreover have "active_ok st"
  proof -
    have "active_ok st = active_ok st6" unfolding st by (rule active_ok_cong) (simp_all add: bm(4))
    then show ?thesis using default_active_ok[OF a c5] by simp
  qed
  moreover have "\<forall>r\<in>set (elems (field st ''practice'')).
      backfill (field st ''activeProfileId'') r = r \<and> migrate_practice r = r"
    unfolding pid unfolding st
    by (auto simp: bm(1) elems_map_elems backfill_migrate_practice backfill_twice migrate_practice_twice)
  moreover have "\<forall>r\<in>set (elems (field st ''competitions'')).
      backfill (field st ''activeProfileId'') r = r \<and> migrate_comp r = r"
    unfolding pid unfolding st
    by (auto simp: bm(2) elems_map_elems backfill_migrate_comp backfill_twice migrate_comp_twice)
  moreover have "\<forall>r\<in>set (elems (field st ''aimMaps'')). backfill (field st ''activeProfileId'') r = r"
    unfolding pid unfolding st
    by (auto simp: bm(3) elems_map_elems backfill_twice)
  ultimately show ?thesis by (simp add: normal_def)
qed

lemma for_each_same:
  "k \<in> set (keys_of st) \<Longrightarrow> \<forall>r\<in>set (elems (field st k)). f r = r \<Longrightarrow> for_each k f st = st"
  by (simp add: for_each_def map_elems_id with_field_same)

lemma normal_fixed:
  assumes "normal st"
  shows "normalize_parsed e st = Inr st"
proof -
  from assms have sw: "starts_with default_keys st" by (simp add: normal_def)
  then have c: "container st" by (rule starts_with_container)
  have key: "k \<in> set default_keys \<Longrightarrow> k \<in> set (keys_of st)" for k
    using sw by (rule starts_with_key)
  have nn: "\<not> nullish st" using c by (rule container_not_nullish)
  have set: "starts_with [''animalScoring''] (field st ''settings'')" using assms by (simp add: normal_def)
  have m: "merge_defaults e st = Inr st"
  proof -
    have "with_field st ''settings'' (field st ''settings'') = st"
      "with_field st ''practice'' (field st ''practice'') = st"
      "with_field st ''competitions'' (field st ''competitions'') = st"
      "with_field st ''aimMaps'' (field st ''aimMaps'') = st"
      by (rule with_field_same; simp add: key default_keys_def)+
    moreover have "synth_profiles e 2 st = st"
      using assms by (simp add: normal_def synth_profiles_def)
    ultimately show ?thesis
      using assms
      by (simp add: merge_defaults_def Let_def assign_defaultState_same[OF sw] get_prop_field[OF nn]
          starts_with_truthy[OF set] assign_defaultSettings_same[OF set] coerce_list_same normal_def)
  qed
  have a: "default_active st = Inr st"
  proof (cases "truthy (field st ''activeProfileId'')")
    case True
    then show ?thesis by (simp add: default_active_def)
  next
    case False
    with assms have "first_id st = Inr (field st ''activeProfileId'')"
      by (simp add: normal_def active_ok_def)
    moreover have "with_field st ''activeProfileId'' (field st ''activeProfileId'') = st"
      by (rule with_field_same; simp add: key default_keys_def)
    ultimately show ?thesis using False by (simp add: default_active_def)
  qed
  have b: "backfill_and_migrate st = st"
  proof -
    let ?pid = "field st ''activeProfileId''"
    have "for_each ''practice'' (backfill ?pid) st = st"
      "for_each ''competitions'' (backfill ?pid) st = st"
      "for_each ''aimMaps'' (backfill ?pid) st = st"
      "for_each ''practice'' migrate_practice st = st"
      "for_each ''competitions'' migrate_comp st = st"
      using assms by (auto intro!: for_each_same simp: key default_keys_def normal_def)
    then show ?thesis by (simp add: backfill_and_migrate_def Let_def)
  qed
  show ?thesis by (simp add: normalize_parsed_def m a b)
qed

lemma normal_defaultState: "normal (defaultState e k)"
proof -
  have f: "field (defaultState e k) ''settings'' = defaultSettings"
    "field (defaultState e k) ''practice'' = Arr [] []"
    "field (defaultState e k) ''competitions'' = Arr [] []"
    "field (defaultState e k) ''aimMaps'' = Arr [] []"
    "field (defaultState e k) ''profiles'' = Arr [newProfile e k] []"
    "field (defaultState e k) ''activeProfileId'' = Str (uid e k)"
    by (simp_all add: defaultState_def lookup_def)
  have "starts_with [''animalScoring''] defaultSettings"
    by (simp add: starts_with_def defaultSettings_def keys_of_def)
  moreover have "first_id (defaultState e k) = Inr (Str (uid e k))"
    by (simp add: first_id_def f newProfile_def get_prop_def nullish_def lookup_def)
  ultimately show ?thesis
    by (simp add: normal_def starts_with_defaultState f no_profiles_def active_ok_def)
qed

lemma normal_normalize_doc: "normal (normalize_doc e d)"
proof (cases "normalize_parsed e d")
  case (Inl err)
  then show ?thesis by (simp add: normalize_doc_def normal_defaultState)
next
  case (Inr st)
  then have "normal st" by (rule normalize_normal)
  with Inr show ?thesis by (simp add: normalize_doc_def)
qed

text \<open>
  C4. Load-normalization is idempotent: whatever the parsed input and whatever the fresh
  identifiers of the two runs, normalizing the output of a normalization (default merge,
  list coercion, profile synthesis, back-fill of \<^verbatim>\<open>profileId\<close>, migration of the older
  bullseye shapes) gives that output again. Every document that \<^verbatim>\<open>loadState\<close> returns is
  such an output or a default document, which a run leaves as it is too.
\<close>

theorem normalize_idempotent:
  "normalize_doc e' (normalize_doc e d) = normalize_doc e d
   \<and> normalize_doc e' (defaultState e k) = defaultState e k"
proof
  have "normalize_parsed e' (normalize_doc e d) = Inr (normalize_doc e d)"
    by (rule normal_fixed[OF normal_normalize_doc])
  then show "normalize_doc e' (normalize_doc e d) = normalize_doc e d"
    by (subst normalize_doc_def) (simp only: sum.case)
  have "normalize_parsed e' (defaultState e k) = Inr (defaultState e k)"
    by (rule normal_fixed[OF normal_defaultState])
  then show "normalize_doc e' (defaultState e k) = defaultState e k"
    by (subst normalize_doc_def) (simp only: sum.case)
qed

theorem normalize_idempotent_witness:
  "normalize_doc sample_env (normalize_doc sample_env old_schema_doc) = normalize_doc sample_env old_schema_doc
   \<and> normalize_doc sample_env (normalize_doc sample_env dangling_doc) = normalize_doc sample_env dangling_doc"
  using normalize_idempotent [of sample_env sample_env old_schema_doc]
    normalize_idempotent [of sample_env sample_env dangling_doc]
  by blast

section \<open>The profile invariant after a load\<close>

lemma merge_defaults_fields:
  assumes "\<not> nullish d"
  shows "\<exists>st4. merge_defaults e d = Inr (synth_profiles e 2 st4) \<and> container st4
      \<and> field st4 ''profiles'' = field (assign (defaultState e 0) d) ''profiles''
      \<and> field st4 ''activeProfileId'' = field (assign (defaultState e 0) d) ''activeProfileId''"
proof -
  define st0 where "st0 = assign (defaultState e 0) d"
  define ps where "ps = field d ''settings''"
  define st1 where "st1 = with_field st0 ''settings'' (assign defaultSettings (if truthy ps then ps else Obj []))"
  define st2 where "st2 = with_field st1 ''practice'' (coerce_list (field st1 ''practice''))"
  define st3 where "st3 = with_field st2 ''competitions'' (coerce_list (field st2 ''competitions''))"
  define st4 where "st4 = with_field st3 ''aimMaps'' (coerce_list (field st3 ''aimMaps''))"
  have m: "merge_defaults e d = Inr (synth_profiles e 2 st4)"
    using assms
    by (simp add: merge_defaults_def Let_def get_prop_field st0_def ps_def st1_def st2_def st3_def st4_def)
  have c0: "container st0"
    unfolding st0_def by (rule starts_with_container[OF starts_with_assign[OF starts_with_defaultState]])
  then have c: "container st1" "container st2" "container st3" "container st4"
    by (simp_all add: st1_def st2_def st3_def st4_def)
  have "field st4 ''profiles'' = field st0 ''profiles''" "field st4 ''activeProfileId'' = field st0 ''activeProfileId''"
    using c0 c by (simp_all add: st4_def st3_def st2_def st1_def field_with_field)
  with m c(4) show ?thesis unfolding st0_def by blast
qed

lemma merge_defaults_not_nullish: "merge_defaults e d = Inr st \<Longrightarrow> \<not> nullish d"
  by (auto simp: merge_defaults_def Let_def get_prop_def split: if_splits)

lemma own_props_not_nullish: "k \<in> fst ` set (own_props d) \<Longrightarrow> \<not> nullish d"
  by (cases d) (auto simp: nullish_def)

lemma active_is_first_cong:
  "field st' ''profiles'' = field st ''profiles'' \<Longrightarrow>
   field st' ''activeProfileId'' = field st ''activeProfileId'' \<Longrightarrow>
   active_is_first st' = active_is_first st"
  by (simp add: active_is_first_def split: list.splits)

lemma active_is_first_default: "active_is_first (defaultState e k)"
  by (simp add: active_is_first_def defaultState_def newProfile_def lookup_def)

lemma first_id_field:
  "first_id st = Inr i \<Longrightarrow> \<exists>p ps. elems (field st ''profiles'') = p # ps \<and> i = field p ''id''"
  by (auto simp: first_id_def get_prop_def split: list.splits if_splits)

lemma default_active_first:
  assumes "default_active st = Inr st'" "container st" "\<not> truthy (field st ''activeProfileId'')"
  shows "active_is_first st'"
proof -
  from default_active_cases[OF assms(1)] assms(3) obtain i
    where i: "first_id st = Inr i" "st' = with_field st ''activeProfileId'' i" by blast
  from first_id_field[OF i(1)] obtain p ps where "elems (field st ''profiles'') = p # ps" "i = field p ''id''"
    by blast
  then show ?thesis using assms(2) by (simp add: active_is_first_def i(2) field_with_field)
qed

lemma backfill_and_migrate_first:
  assumes "container st"
  shows "active_is_first (backfill_and_migrate st) = active_is_first st"
  by (rule active_is_first_cong) (simp_all add: backfill_and_migrate_fields(4)[OF assms])

lemma synth_first:
  assumes "container st" "no_profiles (field st ''profiles'')"
  shows "active_is_first (synth_profiles e k st)" "truthy (field (synth_profiles e k st) ''activeProfileId'') \<or>
     first_id (synth_profiles e k st) = Inr (field (synth_profiles e k st) ''activeProfileId'')"
  using assms
  by (simp_all add: synth_profiles_def active_is_first_def first_id_def field_with_field newProfile_def
      lookup_def get_prop_def nullish_def)

lemma normalize_first:
  assumes "no_profiles (field (assign (defaultState e 0) d) ''profiles'')
        \<or> (''activeProfileId'' \<in> fst ` set (own_props d)
             \<and> \<not> truthy (field (assign (defaultState e 0) d) ''activeProfileId''))"
  shows "active_is_first (normalize_doc e d)"
proof (cases "normalize_parsed e d")
  case (Inl err)
  then show ?thesis by (simp add: normalize_doc_def active_is_first_default)
next
  case (Inr st)
  then obtain st5 st6 where m: "merge_defaults e d = Inr st5"
    and a: "default_active st5 = Inr st6" and st: "st = backfill_and_migrate st6"
    unfolding normalize_parsed_def by (elim bnd_InrE) auto
  from merge_defaults_fields[OF merge_defaults_not_nullish[OF m], of e] m obtain st4
    where st5: "st5 = synth_profiles e 2 st4" and c4: "container st4"
      and f: "field st4 ''profiles'' = field (assign (defaultState e 0) d) ''profiles''"
             "field st4 ''activeProfileId'' = field (assign (defaultState e 0) d) ''activeProfileId''"
    by auto
  have c5: "container st5" using merge_defaults_result[OF m] by (auto dest: starts_with_container)
  have c6: "container st6" using default_active_starts[OF a] merge_defaults_result[OF m]
    by (auto dest: starts_with_container)
  have "active_is_first st6"
  proof (cases "no_profiles (field st4 ''profiles'')")
    case True
    note s = synth_first[OF c4 True, of e 2, folded st5]
    show ?thesis
    proof (cases "truthy (field st5 ''activeProfileId'')")
      case True
      with default_active_cases[OF a] s(1) show ?thesis by auto
    next
      case False
      from default_active_first[OF a c5 False] show ?thesis .
    qed
  next
    case False
    then have "st5 = st4" by (simp add: st5 synth_profiles_def)
    moreover from False assms have "\<not> truthy (field st4 ''activeProfileId'')" by (simp add: f)
    ultimately show ?thesis using default_active_first[OF a c5] by simp
  qed
  then show ?thesis
    by (simp add: normalize_doc_def Inr st backfill_and_migrate_first[OF c6])
qed

lemma normalize_kept:
  assumes "''activeProfileId'' \<in> fst ` set (own_props d)"
    and "truthy (field (assign (defaultState e 0) d) ''activeProfileId'')"
    and "\<not> no_profiles (field (assign (defaultState e 0) d) ''profiles'')"
  shows "field (normalize_doc e d) ''activeProfileId'' = field (assign (defaultState e 0) d) ''activeProfileId''
       \<and> field (normalize_doc e d) ''profiles'' = field (assign (defaultState e 0) d) ''profiles''"
proof -
  from merge_defaults_fields[OF own_props_not_nullish[OF assms(1)], of e] obtain st4
    where m: "merge_defaults e d = Inr (synth_profiles e 2 st4)" and c4: "container st4"
      and f: "field st4 ''profiles'' = field (assign (defaultState e 0) d) ''profiles''"
             "field st4 ''activeProfileId'' = field (assign (defaultState e 0) d) ''activeProfileId''"
    by auto
  have s: "synth_profiles e 2 st4 = st4" using assms(3) by (simp add: synth_profiles_def f)
  have a: "default_active st4 = Inr st4" using assms(2) by (simp add: default_active_def f)
  have "normalize_parsed e d = Inr (backfill_and_migrate st4)"
    by (simp add: normalize_parsed_def m s a)
  then show ?thesis
    by (simp add: normalize_doc_def backfill_and_migrate_fields(4)[OF c4] f)
qed

lemma loadState_cases:
  "loadState parse e stored = defaultState e 0
   \<or> (\<exists>raw d. stored = Some raw \<and> raw \<noteq> [] \<and> parse raw = Some d \<and> loadState parse e stored = normalize_doc e d)"
  by (auto simp: loadState_def split: option.splits)

lemma normal_has_profiles: "normal st \<Longrightarrow> \<not> no_profiles (field st ''profiles'')"
  by (simp add: normal_def)

text \<open>
  C2, as the code has it. After \<^verbatim>\<open>loadState\<close> the profiles are a non-empty list, whatever
  was stored. \<^verbatim>\<open>activeProfileId\<close> is the id of the first profile when \<^verbatim>\<open>loadState\<close> falls back
  to the default document, when the stored \<^verbatim>\<open>profiles\<close> entry is not a non-empty list (a
  profile is synthesized and made active) and when the stored \<^verbatim>\<open>activeProfileId\<close> entry is
  falsy. A stored truthy \<^verbatim>\<open>activeProfileId\<close> is kept as it is, next to the stored profiles,
  whether or not it names one of them.
\<close>

theorem loadState_profiles:
  "\<not> no_profiles (field (loadState parse e stored) ''profiles'')
   \<and> (loadState parse e stored = defaultState e 0
      \<or> (\<exists>raw d. stored = Some raw \<and> raw \<noteq> [] \<and> parse raw = Some d
            \<and> loadState parse e stored = normalize_doc e d))
   \<and> active_is_first (defaultState e k)
   \<and> (no_profiles (field (assign (defaultState e 0) d1) ''profiles'')
        \<or> (''activeProfileId'' \<in> fst ` set (own_props d1)
             \<and> \<not> truthy (field (assign (defaultState e 0) d1) ''activeProfileId''))
      \<longrightarrow> active_is_first (normalize_doc e d1))
   \<and> (''activeProfileId'' \<in> fst ` set (own_props d2)
        \<and> truthy (field (assign (defaultState e 0) d2) ''activeProfileId'')
        \<and> \<not> no_profiles (field (assign (defaultState e 0) d2) ''profiles'')
      \<longrightarrow> field (normalize_doc e d2) ''activeProfileId'' = field (assign (defaultState e 0) d2) ''activeProfileId''
        \<and> field (normalize_doc e d2) ''profiles'' = field (assign (defaultState e 0) d2) ''profiles'')"
proof (intro conjI impI)
  show "\<not> no_profiles (field (loadState parse e stored) ''profiles'')"
    using loadState_cases[of parse e stored]
      normal_has_profiles[OF normal_defaultState, of e 0] normal_has_profiles[OF normal_normalize_doc, of e]
    by auto
  show "loadState parse e stored = defaultState e 0
      \<or> (\<exists>raw d. stored = Some raw \<and> raw \<noteq> [] \<and> parse raw = Some d
            \<and> loadState parse e stored = normalize_doc e d)"
    by (rule loadState_cases)
  show "active_is_first (defaultState e k)" by (rule active_is_first_default)
next
  assume "no_profiles (field (assign (defaultState e 0) d1) ''profiles'')
        \<or> (''activeProfileId'' \<in> fst ` set (own_props d1)
             \<and> \<not> truthy (field (assign (defaultState e 0) d1) ''activeProfileId''))"
  then show "active_is_first (normalize_doc e d1)" by (rule normalize_first)
next
  assume h: "''activeProfileId'' \<in> fst ` set (own_props d2)
        \<and> truthy (field (assign (defaultState e 0) d2) ''activeProfileId'')
        \<and> \<not> no_profiles (field (assign (defaultState e 0) d2) ''profiles'')"
  then show "field (normalize_doc e d2) ''activeProfileId'' = field (assign (defaultState e 0) d2) ''activeProfileId''"
    using normalize_kept[of d2 e] by blast
  from h show "field (normalize_doc e d2) ''profiles'' = field (assign (defaultState e 0) d2) ''profiles''"
    using normalize_kept[of d2 e] by blast
qed

text \<open>
  A stored \<^verbatim>\<open>activeProfileId\<close> that names no profile survives the load, and
  \<^verbatim>\<open>ensureProfiles\<close> after it: the test is for a falsy value only.
\<close>

lemma loaded_dangling:
  "loadState sample_parse sample_env (Some dangling_text) =
     Obj [(''profiles'', Arr [Obj [(''id'', Str ''a1''), (''name'', Str ''Ann''), (''createdAt'', Str ''2024-01-01'')]] []),
          (''activeProfileId'', Str ''zzz''),
          (''practice'', Arr [Obj [(''id'', Str ''s1''), (''title'', Str ''warm-up''), (''profileId'', Str ''zzz'')]] []),
          (''competitions'', Arr [] []),
          (''aimMaps'', Arr [] []),
          (''settings'', Obj [(''animalScoring'', Str ''nasp3d'')])]"
  by code_simp

theorem loadState_dangling_counterexample:
  "field (loadState sample_parse sample_env (Some dangling_text)) ''profiles''
     = Arr [Obj [(''id'', Str ''a1''), (''name'', Str ''Ann''), (''createdAt'', Str ''2024-01-01'')]] []
   \<and> field (loadState sample_parse sample_env (Some dangling_text)) ''activeProfileId'' = Str ''zzz''
   \<and> \<not> active_resolves (loadState sample_parse sample_env (Some dangling_text))
   \<and> ensureProfiles sample_env 0 (loadState sample_parse sample_env (Some dangling_text))
     = Inr (loadState sample_parse sample_env (Some dangling_text))"
  unfolding loaded_dangling by code_simp


theorem loadState_profiles_witness:
  "''activeProfileId'' \<in> fst ` set (own_props null_active_doc)
   \<and> \<not> truthy (field (assign (defaultState sample_env 0) null_active_doc) ''activeProfileId'')
   \<and> active_is_first (normalize_doc sample_env null_active_doc)
   \<and> ''activeProfileId'' \<in> fst ` set (own_props dangling_doc)
   \<and> truthy (field (assign (defaultState sample_env 0) dangling_doc) ''activeProfileId'')
   \<and> \<not> no_profiles (field (assign (defaultState sample_env 0) dangling_doc) ''profiles'')
   \<and> field (normalize_doc sample_env dangling_doc) ''activeProfileId'' = Str ''zzz''"
proof -
  have h1: "''activeProfileId'' \<in> fst ` set (own_props null_active_doc)"
    by (simp add: null_active_doc_def)
  have h2: "\<not> truthy (field (assign (defaultState sample_env 0) null_active_doc) ''activeProfileId'')"
    by code_simp
  have h3: "''activeProfileId'' \<in> fst ` set (own_props dangling_doc)"
    by (simp add: dangling_doc_def)
  have h4: "field (assign (defaultState sample_env 0) dangling_doc) ''activeProfileId'' = Str ''zzz''"
    by code_simp
  have h5: "\<not> no_profiles (field (assign (defaultState sample_env 0) dangling_doc) ''profiles'')"
    by code_simp
  note t = loadState_profiles [where e = sample_env and ?d1.0 = null_active_doc and ?d2.0 = dangling_doc]
  from t h1 h2 have a: "active_is_first (normalize_doc sample_env null_active_doc)" by blast
  from t h3 h4 h5
  have "field (normalize_doc sample_env dangling_doc) ''activeProfileId''
      = field (assign (defaultState sample_env 0) dangling_doc) ''activeProfileId''"
    by simp
  with h4 have b: "field (normalize_doc sample_env dangling_doc) ''activeProfileId'' = Str ''zzz''" by simp
  from h1 h2 a h3 h4 h5 b show ?thesis by simp
qed

section \<open>Deleting a profile\<close>

lemma not_owned_kept:
  assumes "not_owned pid v = Inr v'" "r \<in> set (elems v)" "\<not> strict_eq (field r ''profileId'') pid"
  shows "r \<in> set (elems v')"
proof -
  from assms(2) have arr: "isArray v" by (cases v) auto
  then have oe: "or_empty v = Inr (elems v)" by (rule or_empty_isArray)
  let ?f = "\<lambda>r. bnd (get_prop r ''profileId'') (\<lambda>x. Inr (\<not> strict_eq x pid))"
  from assms(1) obtain kept where k: "filterE ?f (elems v) = Inr kept" "v' = Arr kept []"
    by (auto simp: not_owned_def oe bnd_def split: sum.splits)
  from filterE_defined[OF k(1) assms(2)] obtain b where b: "?f r = Inr b" by blast
  then have "\<not> nullish r" by (auto simp: get_prop_def split: if_splits)
  with assms(3) have "?f r = Inr True" by (simp add: get_prop_field)
  then have "r \<in> set kept"
    using k(1) assms(2) by (rule filterE_keeps[rotated 2])
  then show ?thesis unfolding k(2) by simp
qed

lemma remove_profile_kept:
  assumes run: "remove_profile p st = Inr st'"
    and k: "k = ''practice'' \<or> k = ''competitions'' \<or> k = ''aimMaps''"
    and r: "r \<in> set (elems (field st k))"
    and neq: "\<not> strict_eq (field r ''profileId'') (field p ''id'')"
  shows "r \<in> set (elems (field st' k))"
proof -
  have cont: "container st"
    by (rule field_container[of _ k]) (use r in \<open>cases "field st k"; auto\<close>)
  from run obtain pid where pid: "get_prop p ''id'' = Inr pid"
    unfolding remove_profile_def by (elim bnd_InrE)
  then have pid_eq: "pid = field p ''id''" by (auto simp: get_prop_def split: if_splits)
  from run obtain pr co am pf where
        pr: "not_owned pid (field st ''practice'') = Inr pr"
    and co: "not_owned pid (field st ''competitions'') = Inr co"
    and am: "not_owned pid (field st ''aimMaps'') = Inr am"
    and re: "reassign_active pid
       (with_field (with_field (with_field (with_field st
          ''practice'' pr) ''competitions'' co) ''aimMaps'' am) ''profiles'' pf) = Inr st'"
    unfolding remove_profile_def pid bnd_Inr
    by (elim bnd_InrE) blast
  have "field st' k = field (with_field (with_field (with_field (with_field st
          ''practice'' pr) ''competitions'' co) ''aimMaps'' am) ''profiles'' pf) k"
    using k cont by (intro reassign_active_field[OF re]) auto
  then have same: "field st' k = (if k = ''practice'' then pr else if k = ''competitions'' then co else am)"
    using k cont by (auto simp: field_with_field)
  note neq' = neq[folded pid_eq]
  have "r \<in> set (elems (field st ''practice'')) \<Longrightarrow> r \<in> set (elems pr)"
    using not_owned_kept[OF pr _ neq'] by blast
  moreover have "r \<in> set (elems (field st ''competitions'')) \<Longrightarrow> r \<in> set (elems co)"
    using not_owned_kept[OF co _ neq'] by blast
  moreover have "r \<in> set (elems (field st ''aimMaps'')) \<Longrightarrow> r \<in> set (elems am)"
    using not_owned_kept[OF am _ neq'] by blast
  ultimately show ?thesis using k r unfolding same by auto
qed

lemma reassign_active_container:
  "reassign_active pid st = Inr st' \<Longrightarrow> container st \<Longrightarrow> container st'"
  by (auto simp: reassign_active_def elim!: bnd_InrE split: if_splits)

lemma remove_profile_container:
  assumes "remove_profile p st = Inr st'" "container st"
  shows "container st'"
proof -
  from assms(1) obtain pid pr co am pf where
    re: "reassign_active pid
       (with_field (with_field (with_field (with_field st
          ''practice'' pr) ''competitions'' co) ''aimMaps'' am) ''profiles'' pf) = Inr st'"
    unfolding remove_profile_def by (elim bnd_InrE) blast
  from reassign_active_container[OF re] assms(2) show ?thesis by simp
qed

text \<open>One optional loop: what it leaves.\<close>

lemma for_each_opt_result:
  assumes "for_each_opt k f st = Inr st'" "container st"
  shows "container st'" "field st' k = map_elems f (field st k)"
    "k' \<noteq> k \<Longrightarrow> field st' k' = field st k'"
    "set (keys_of st) \<subseteq> set (keys_of st')"
    "\<not> truthy (field st k) \<or> isArray (field st k) \<and> k \<in> set (keys_of st')"
proof -
  have "st' = st \<and> \<not> truthy (field st k) \<or> st' = for_each k f st \<and> isArray (field st k)"
    using assms(1) by (auto simp: for_each_opt_def split: if_splits)
  then have a: "container st' \<and> field st' k = map_elems f (field st k)
      \<and> (k' \<noteq> k \<longrightarrow> field st' k' = field st k')
      \<and> set (keys_of st) \<subseteq> set (keys_of st')
      \<and> (\<not> truthy (field st k) \<or> isArray (field st k) \<and> k \<in> set (keys_of st'))"
  proof
    assume h: "st' = st \<and> \<not> truthy (field st k)"
    then have "map_elems f (field st k) = field st k" by (cases "field st k") auto
    with h assms(2) show ?thesis by simp
  next
    assume h: "st' = for_each k f st \<and> isArray (field st k)"
    have "container st'" using h assms(2) by (simp add: for_each_def)
    moreover have "field st' k = map_elems f (field st k)"
      "k' \<noteq> k \<longrightarrow> field st' k' = field st k'"
      using h assms(2) by (simp_all add: field_for_each)
    moreover have "set (keys_of st) \<subseteq> set (keys_of st')" "k \<in> set (keys_of st')"
      using h assms(2) by (auto simp: for_each_def keys_with_field)
    ultimately show ?thesis using h by simp
  qed
  from a show "container st'" by simp
  from a show "field st' k = map_elems f (field st k)" by simp
  from a show "k' \<noteq> k \<Longrightarrow> field st' k' = field st k'" by simp
  from a show "set (keys_of st) \<subseteq> set (keys_of st')" by simp
  from a show "\<not> truthy (field st k) \<or> isArray (field st k) \<and> k \<in> set (keys_of st')" by simp
qed

lemma synth_profiles_same: "\<not> no_profiles (field st ''profiles'') \<Longrightarrow> synth_profiles e k st = st"
  by (simp add: synth_profiles_def)

lemma container_synth [simp]: "container (synth_profiles e k st) = container st"
  by (simp add: synth_profiles_def)

lemma default_active_container:
  "default_active st = Inr st' \<Longrightarrow> container st \<Longrightarrow> container st'"
  using default_active_cases[of st st'] by auto

text \<open>What \<^verbatim>\<open>ensureProfiles()\<close> leaves.\<close>

lemma ensureProfiles_result:
  assumes run: "ensureProfiles e k st = Inr st'" and c: "container st"
  shows "container st'"
    and "\<not> no_profiles (field st' ''profiles'')"
    and "K = ''practice'' \<or> K = ''competitions'' \<or> K = ''aimMaps'' \<Longrightarrow>
           field st' K = map_elems (backfill (field st' ''activeProfileId'')) (field st K)"
    and "\<not> no_profiles (field st ''profiles'') \<Longrightarrow> field st' ''profiles'' = field st ''profiles''"
    and "\<not> no_profiles (field st ''profiles'') \<Longrightarrow> truthy (field st ''activeProfileId'') \<Longrightarrow>
           field st' ''activeProfileId'' = field st ''activeProfileId''"
    and "\<not> no_profiles (field st ''profiles'') \<Longrightarrow> \<not> truthy (field st ''activeProfileId'') \<Longrightarrow>
           first_id st = Inr (field st' ''activeProfileId'')"
    and "k' \<notin> {''profiles'', ''activeProfileId'', ''practice'', ''competitions'', ''aimMaps''} \<Longrightarrow>
           field st' k' = field st k'"
proof -
  define st1 where "st1 = synth_profiles e k st"
  have c1: "container st1" using c by (simp add: st1_def)
  from run obtain st2 st3 st4 where
        s2: "default_active st1 = Inr st2"
    and s3: "for_each_opt ''practice'' (backfill (field st2 ''activeProfileId'')) st2 = Inr st3"
    and s4: "for_each_opt ''competitions'' (backfill (field st2 ''activeProfileId'')) st3 = Inr st4"
    and s5: "for_each_opt ''aimMaps'' (backfill (field st2 ''activeProfileId'')) st4 = Inr st'"
    unfolding ensureProfiles_def Let_def st1_def[symmetric]
    by (elim bnd_InrE) blast
  have c2: "container st2" using s2 c1 by (rule default_active_container)
  note r3 = for_each_opt_result[OF s3 c2]
  note r4 = for_each_opt_result[OF s4 r3(1)]
  note r5 = for_each_opt_result[OF s5 r4(1)]
  show "container st'" by (rule r5(1))
  have act: "field st' ''activeProfileId'' = field st2 ''activeProfileId''"
    by (simp add: r5(3) r4(3) r3(3))
  have prof: "field st' ''profiles'' = field st1 ''profiles''"
    by (simp add: r5(3) r4(3) r3(3) default_active_frame[OF s2 c1])
  show "\<not> no_profiles (field st' ''profiles'')"
    unfolding prof st1_def using c by (rule has_profiles_synth)
  {
    assume K: "K = ''practice'' \<or> K = ''competitions'' \<or> K = ''aimMaps''"
    then have "field st2 K = field st K"
      using default_active_frame[OF s2 c1, of K] field_synth[OF c, of K e k]
      by (auto simp: st1_def)
    with K show "field st' K = map_elems (backfill (field st' ''activeProfileId'')) (field st K)"
      unfolding act by (auto simp: r5 r4 r3)
  }
  {
    assume np: "\<not> no_profiles (field st ''profiles'')"
    then have same: "st1 = st" by (simp add: st1_def synth_profiles_same)
    show "field st' ''profiles'' = field st ''profiles''"
      using prof same by simp
    {
      assume "truthy (field st ''activeProfileId'')"
      with default_active_cases[OF s2] same have "st2 = st" by auto
      with act show "field st' ''activeProfileId'' = field st ''activeProfileId''" by simp
    }
    {
      assume "\<not> truthy (field st ''activeProfileId'')"
      with default_active_cases[OF s2] same obtain i where
        "first_id st = Inr i" "st2 = with_field st ''activeProfileId'' i" by auto
      with act c show "first_id st = Inr (field st' ''activeProfileId'')"
        by (simp add: field_with_field)
    }
  }
  {
    assume k': "k' \<notin> {''profiles'', ''activeProfileId'', ''practice'', ''competitions'', ''aimMaps''}"
    then have "field st' k' = field st2 k'" by (simp add: r5(3) r4(3) r3(3))
    also have "\<dots> = field st1 k'" using k' by (intro default_active_frame[OF s2 c1]) simp
    also have "\<dots> = field st k'" unfolding st1_def using k' by (intro field_synth[OF c]) auto
    finally show "field st' k' = field st k'" .
  }
qed



text \<open>A second call of \<^verbatim>\<open>ensureProfiles()\<close> changes nothing.\<close>

lemma first_id_same: "field st' ''profiles'' = field st ''profiles'' \<Longrightarrow> first_id st' = first_id st"
  by (simp add: first_id_def)

lemma ensureProfiles_twice:
  assumes run: "ensureProfiles e k st = Inr st'" and c: "container st"
  shows "ensureProfiles e k' st' = Inr st'"
proof -
  define st1 where "st1 = synth_profiles e k st"
  have c1: "container st1" using c by (simp add: st1_def)
  from run obtain st2 st3 st4 where
        s2: "default_active st1 = Inr st2"
    and s3: "for_each_opt ''practice'' (backfill (field st2 ''activeProfileId'')) st2 = Inr st3"
    and s4: "for_each_opt ''competitions'' (backfill (field st2 ''activeProfileId'')) st3 = Inr st4"
    and s5: "for_each_opt ''aimMaps'' (backfill (field st2 ''activeProfileId'')) st4 = Inr st'"
    unfolding ensureProfiles_def Let_def st1_def[symmetric]
    by (elim bnd_InrE) blast
  have c2: "container st2" using s2 c1 by (rule default_active_container)
  note r3 = for_each_opt_result[OF s3 c2]
  note r4 = for_each_opt_result[OF s4 r3(1)]
  note r5 = for_each_opt_result[OF s5 r4(1)]
  let ?a = "field st' ''activeProfileId''"
  have act: "?a = field st2 ''activeProfileId''"
    by (simp add: r5(3) r4(3) r3(3))
  have prof: "field st' ''profiles'' = field st1 ''profiles''"
    by (simp add: r5(3) r4(3) r3(3) default_active_frame[OF s2 c1])
  have keys: "set (keys_of st2) \<subseteq> set (keys_of st')"
    using r3(4) r4(4) r5(4) by blast
  have np: "\<not> no_profiles (field st' ''profiles'')"
    unfolding prof st1_def using c by (rule has_profiles_synth)
  have da: "default_active st' = Inr st'"
  proof (cases "truthy ?a")
    case True
    then show ?thesis by (simp add: default_active_def)
  next
    case False
    with default_active_cases[OF s2] act obtain i where
      i: "first_id st1 = Inr i" "st2 = with_field st1 ''activeProfileId'' i"
      by auto
    have "?a = i" using act i(2) c1 by (simp add: field_with_field)
    moreover have "''activeProfileId'' \<in> set (keys_of st')"
      using keys i(2) c1 by (auto simp: keys_with_field)
    ultimately have "with_field st' ''activeProfileId'' i = st'"
      by (intro with_field_same) simp_all
    moreover have "first_id st' = Inr i" using first_id_same[OF prof] i(1) by simp
    ultimately show ?thesis using False by (simp add: default_active_def)
  qed
  have f1: "field st' ''practice'' = map_elems (backfill ?a) (field st2 ''practice'')"
    unfolding act by (simp add: r5(3) r4(3) r3(2))
  have f2: "field st' ''competitions'' = map_elems (backfill ?a) (field st2 ''competitions'')"
    unfolding act by (simp add: r5(3) r4(2) r3(3))
  have f3: "field st' ''aimMaps'' = map_elems (backfill ?a) (field st2 ''aimMaps'')"
    unfolding act by (simp add: r5(2) r4(3) r3(3))
  have k1: "\<not> truthy (field st2 ''practice'') \<or> isArray (field st2 ''practice'') \<and> ''practice'' \<in> set (keys_of st')"
    using r3(5) r4(4) r5(4) by blast
  have k2: "\<not> truthy (field st2 ''competitions'')
      \<or> isArray (field st2 ''competitions'') \<and> ''competitions'' \<in> set (keys_of st')"
    using r4(5) r5(4) r3(3)[of "''competitions''"] by auto
  have k3: "\<not> truthy (field st2 ''aimMaps'') \<or> isArray (field st2 ''aimMaps'') \<and> ''aimMaps'' \<in> set (keys_of st')"
    using r5(5) r4(3)[of "''aimMaps''"] r3(3)[of "''aimMaps''"] by auto
  have loop: "for_each_opt K (backfill ?a) st' = Inr st'"
    if "field st' K = map_elems (backfill ?a) v" "\<not> truthy v \<or> isArray v \<and> K \<in> set (keys_of st')" for K v
  proof (cases "truthy v")
    case False
    then have "map_elems (backfill ?a) v = v" by (cases v) auto
    with that(1) False show ?thesis by (simp add: for_each_opt_def)
  next
    case True
    with that(2) have arr: "isArray v" and key: "K \<in> set (keys_of st')" by auto
    have "\<forall>r\<in>set (elems (field st' K)). backfill ?a r = r"
      unfolding that(1) by (simp add: elems_map_elems backfill_twice)
    with key have "for_each K (backfill ?a) st' = st'" by (rule for_each_same)
    moreover have "isArray (field st' K)" unfolding that(1) using arr by simp
    moreover then have "truthy (field st' K)" by (cases "field st' K") auto
    ultimately show ?thesis by (simp add: for_each_opt_def)
  qed
  show ?thesis
    by (simp add: ensureProfiles_def synth_profiles_same[OF np] da loop[OF f1 k1] loop[OF f2 k2] loop[OF f3 k3])
qed

text \<open>The two renders of the profile widgets, drawing apart.\<close>

lemma render_profiles:
  assumes "ensureProfiles e k st = Inr st'" "container st"
  shows "bnd (renderProfileSelect d e k st) (\<lambda>st1. bnd (renderProfilesList d e k' st1) f)
           = (if draws_select d st' \<and> draws_list d st' then f st' else Inl TypeError)"
  using assms(1) ensureProfiles_twice[OF assms, of k']
  by (simp add: renderProfileSelect_def renderProfilesList_def)

text \<open>The runs of the handler that complete.\<close>

lemma delete_click_cases:
  assumes run: "delete_click fmt d e k p ok w = Inr w'" and c: "container (state w)"
  shows "(state w' = state w \<and> slot w' = slot w)
       \<or> (\<exists>st st'. remove_profile p (state w) = Inr st \<and> ensureProfiles e k st = Inr st'
             \<and> w' = w\<lparr>state := st', slot := Some (stringify fmt [] st)\<rparr>)"
proof -
  from run obtain few where few: "at_most_one (field (state w) ''profiles'') = Inr few"
    unfolding delete_click_def by (elim bnd_InrE)
  show ?thesis
  proof (cases "few \<or> \<not> ok")
    case True
    with run few show ?thesis
      by (auto simp: delete_click_def elim!: bnd_InrE split: if_splits)
  next
    case False
    with run few obtain name st where
      st: "remove_profile p (state w) = Inr st"
      and rest: "(let w1 = saveState fmt (w\<lparr>state := st\<rparr>) in
           if \<not> draws_all d st then Inl TypeError
           else bnd (renderProfileSelect d e k st) (\<lambda>st1.
                bnd (renderProfilesList d e (Suc k) st1) (\<lambda>st2. Inr (w1\<lparr>state := st2\<rparr>)))) = Inr w'"
      unfolding delete_click_def by (auto elim!: bnd_InrE split: if_splits)
    from rest obtain st1 st2 where
      a: "renderProfileSelect d e k st = Inr st1" and b: "renderProfilesList d e (Suc k) st1 = Inr st2"
      and w': "w' = (saveState fmt (w\<lparr>state := st\<rparr>))\<lparr>state := st2\<rparr>"
      by (auto simp: Let_def elim!: bnd_InrE split: if_splits)
    from a have e1: "ensureProfiles e k st = Inr st1"
      by (auto simp: renderProfileSelect_def elim!: bnd_InrE split: if_splits)
    have cs: "container st" using st c by (rule remove_profile_container)
    from b have "ensureProfiles e (Suc k) st1 = Inr st2"
      by (auto simp: renderProfilesList_def elim!: bnd_InrE split: if_splits)
    with ensureProfiles_twice[OF e1 cs, of "Suc k"] have "st2 = st1" by simp
    with w' have "w' = w\<lparr>state := st1, slot := Some (stringify fmt [] st)\<rparr>"
      by (simp add: saveState_def)
    with st e1 show ?thesis by blast
  qed
qed

lemma strict_eq_nullish: "nullish x \<Longrightarrow> \<not> nullish y \<Longrightarrow> \<not> strict_eq x y"
  by (cases x; cases y) (auto simp: nullish_def)

lemma remove_ann: "remove_profile ann two_profiles_doc = Inr without_ann_doc"
  by (simp add: remove_profile_def reassign_active_def not_owned_def other_profiles_def
      first_id_def get_prop_def nullish_def or_empty_def lookup_def
      two_profiles_doc_def without_ann_doc_def ann_def)

lemma ensure_without_ann: "ensureProfiles sample_env 0 without_ann_doc = Inr after_ann_doc"
  by code_simp

lemma delete_ann:
  "delete_click sample_fmt sample_drawing sample_env 0 ann True (sample_world two_profiles_doc)
     = Inr ((sample_world two_profiles_doc)
              \<lparr>state := after_ann_doc, slot := Some (stringify sample_fmt [] without_ann_doc)\<rparr>)"
proof -
  have c: "container without_ann_doc" by (simp add: without_ann_doc_def container_def)
  have "at_most_one (field (state (sample_world two_profiles_doc)) ''profiles'') = Inr False"
    by (simp add: sample_world_def two_profiles_doc_def lookup_def)
  moreover have "get_prop ann ''name'' = Inr (Str ''Ann'')"
    by (simp add: get_prop_def ann_def nullish_def lookup_def)
  moreover have "state (sample_world two_profiles_doc) = two_profiles_doc"
    by (simp add: sample_world_def)
  ultimately show ?thesis
    by (simp add: delete_click_def remove_ann render_profiles[OF ensure_without_ann c] saveState_def
        sample_drawing_def)
qed





text \<open>
  C10. The three collections are filtered by strict inequality of \<^verbatim>\<open>profileId\<close> with the
  id of the deleted profile. When that id is neither \<^verbatim>\<open>undefined\<close> nor \<^verbatim>\<open>null\<close>, a record
  whose \<^verbatim>\<open>profileId\<close> is \<^verbatim>\<open>undefined\<close> or \<^verbatim>\<open>null\<close> is not removed by any run of the handler
  that completes, whichever profile is deleted, the active one included: either document
  and storage are as before, or the record is in the saved document as it was and in the
  document in memory with the back-fill of the re-render applied to it.
\<close>

theorem delete_keeps_unowned:
  assumes id: "\<not> nullish (field p ''id'')"
    and run: "delete_click fmt d e n p ok w = Inr w'"
    and k: "k = ''practice'' \<or> k = ''competitions'' \<or> k = ''aimMaps''"
    and r: "r \<in> set (elems (field (state w) k))"
    and un: "nullish (field r ''profileId'')"
  shows "(state w' = state w \<and> slot w' = slot w \<and> r \<in> set (elems (field (state w') k)))
       \<or> (\<exists>st. remove_profile p (state w) = Inr st
             \<and> slot w' = Some (stringify fmt [] st)
             \<and> r \<in> set (elems (field st k))
             \<and> backfill (field (state w') ''activeProfileId'') r \<in> set (elems (field (state w') k)))"
proof -
  have cont: "container (state w)"
    by (rule field_container[of _ k]) (use r in \<open>cases "field (state w) k"; auto\<close>)
  have neq: "\<not> strict_eq (field r ''profileId'') (field p ''id'')"
    using un id by (rule strict_eq_nullish)
  from delete_click_cases[OF run cont] show ?thesis
  proof
    assume "state w' = state w \<and> slot w' = slot w"
    with r show ?thesis by simp
  next
    assume "\<exists>st st'. remove_profile p (state w) = Inr st \<and> ensureProfiles e n st = Inr st'
             \<and> w' = w\<lparr>state := st', slot := Some (stringify fmt [] st)\<rparr>"
    then obtain st st' where st: "remove_profile p (state w) = Inr st"
      and e1: "ensureProfiles e n st = Inr st'"
      and w': "w' = w\<lparr>state := st', slot := Some (stringify fmt [] st)\<rparr>"
      by blast
    have kept: "r \<in> set (elems (field st k))"
      using st k r neq by (rule remove_profile_kept)
    have cs: "container st" using st cont by (rule remove_profile_container)
    have "field st' k = map_elems (backfill (field st' ''activeProfileId'')) (field st k)"
      using ensureProfiles_result(3)[OF e1 cs k] .
    with kept have "backfill (field st' ''activeProfileId'') r \<in> set (elems (field st' k))"
      by (simp add: elems_map_elems)
    with st kept w' show ?thesis by auto
  qed
qed

theorem delete_keeps_unowned_witness:
  "\<not> nullish (field ann ''id'')
   \<and> field (state (sample_world two_profiles_doc)) ''activeProfileId'' = field ann ''id''
   \<and> Obj [(''id'', Str ''s4'')] \<in> set (elems (field (state (sample_world two_profiles_doc)) ''practice''))
   \<and> nullish (field (Obj [(''id'', Str ''s4'')]) ''profileId'')
   \<and> delete_click sample_fmt sample_drawing sample_env 0 ann True (sample_world two_profiles_doc)
      = Inr ((sample_world two_profiles_doc)
              \<lparr>state := after_ann_doc, slot := Some (stringify sample_fmt [] without_ann_doc)\<rparr>)
   \<and> Obj [(''id'', Str ''s4'')] \<in> set (elems (field without_ann_doc ''practice''))
   \<and> Obj [(''id'', Str ''s4''), (''profileId'', Str ''b2'')] \<in> set (elems (field after_ann_doc ''practice''))"
proof -
  let ?s4 = "Obj [(''id'', Str ''s4'')]"
  let ?w = "sample_world two_profiles_doc"
  have h1: "\<not> nullish (field ann ''id'')" by (simp add: ann_def lookup_def nullish_def)
  have h2: "?s4 \<in> set (elems (field (state ?w) ''practice''))"
    by (simp add: sample_world_def two_profiles_doc_def lookup_def)
  have h3: "nullish (field ?s4 ''profileId'')" by (simp add: lookup_def nullish_def)
  have h4: "field (state ?w) ''activeProfileId'' = field ann ''id''"
    by (simp add: sample_world_def two_profiles_doc_def ann_def lookup_def)
  have ne: "after_ann_doc \<noteq> two_profiles_doc" by (simp add: after_ann_doc_def two_profiles_doc_def)
  have ra: "remove_profile ann two_profiles_doc = Inr without_ann_doc" by (rule remove_ann)
  have bf: "backfill (field after_ann_doc ''activeProfileId'') ?s4 = Obj [(''id'', Str ''s4''), (''profileId'', Str ''b2'')]"
    by (simp add: after_ann_doc_def backfill_def lookup_def)
  from delete_keeps_unowned [OF h1 delete_ann _ h2 h3] ne ra bf
  have "?s4 \<in> set (elems (field without_ann_doc ''practice''))
      \<and> Obj [(''id'', Str ''s4''), (''profileId'', Str ''b2'')] \<in> set (elems (field after_ann_doc ''practice''))"
    by (simp add: sample_world_def)
  with h1 h2 h3 h4 delete_ann show ?thesis by simp
qed

text \<open>
  The claim without the condition on the id fails. The stored document has a first profile
  without an \<^verbatim>\<open>id\<close> and a null \<^verbatim>\<open>activeProfileId\<close>; the load leaves the \<^verbatim>\<open>profileId\<close> of the
  session \<^verbatim>\<open>undefined\<close>, and so does \<^verbatim>\<open>ensureProfiles()\<close>. Deleting that profile removes the
  session: \<^verbatim>\<open>undefined !== undefined\<close> is false.
\<close>

lemma loaded_noid: "normalize_doc sample_env noid_stored = noid_doc"
  by code_simp

lemma ensure_noid: "ensureProfiles sample_env 0 noid_doc = Inr noid_doc"
  by code_simp

lemma remove_noid: "remove_profile (Obj [(''name'', Str ''Ann'')]) noid_doc = Inr noid_after"
  by (simp add: remove_profile_def reassign_active_def not_owned_def other_profiles_def
      first_id_def get_prop_def nullish_def or_empty_def lookup_def noid_doc_def noid_after_def)

lemma ensure_noid_after: "ensureProfiles sample_env 0 noid_after = Inr noid_after"
  by code_simp

theorem delete_unowned_counterexample:
  "normalize_doc sample_env noid_stored = noid_doc
   \<and> ensureProfiles sample_env 0 noid_doc = Inr noid_doc
   \<and> field noid_doc ''profiles''
       = Arr [Obj [(''name'', Str ''Ann'')], Obj [(''id'', Str ''b2''), (''name'', Str ''Bob'')]] []
   \<and> field (Obj [(''name'', Str ''Ann'')]) ''id'' = Undefined
   \<and> field noid_doc ''practice'' = Arr [Obj [(''id'', Str ''s1''), (''profileId'', Undefined)]] []
   \<and> field (Obj [(''id'', Str ''s1''), (''profileId'', Undefined)]) ''profileId'' = Undefined
   \<and> delete_click sample_fmt sample_drawing sample_env 0 (Obj [(''name'', Str ''Ann'')]) True
        (sample_world noid_doc)
       = Inr ((sample_world noid_doc)\<lparr>state := noid_after, slot := Some (stringify sample_fmt [] noid_after)\<rparr>)
   \<and> field noid_after ''practice'' = Arr [] []"
proof -
  have c: "container noid_after" by (simp add: noid_after_def container_def)
  have "at_most_one (field (state (sample_world noid_doc)) ''profiles'') = Inr False"
    by (simp add: sample_world_def noid_doc_def lookup_def)
  moreover have "get_prop (Obj [(''name'', Str ''Ann'')]) ''name'' = Inr (Str ''Ann'')"
    by (simp add: get_prop_def nullish_def lookup_def)
  moreover have "state (sample_world noid_doc) = noid_doc"
    by (simp add: sample_world_def)
  ultimately have "delete_click sample_fmt sample_drawing sample_env 0 (Obj [(''name'', Str ''Ann'')]) True
        (sample_world noid_doc)
       = Inr ((sample_world noid_doc)\<lparr>state := noid_after, slot := Some (stringify sample_fmt [] noid_after)\<rparr>)"
    by (simp add: delete_click_def remove_noid render_profiles[OF ensure_noid_after c] saveState_def
        sample_drawing_def)
  moreover have "field noid_doc ''profiles''
       = Arr [Obj [(''name'', Str ''Ann'')], Obj [(''id'', Str ''b2''), (''name'', Str ''Bob'')]] []"
    "field noid_doc ''practice'' = Arr [Obj [(''id'', Str ''s1''), (''profileId'', Undefined)]] []"
    by (simp_all add: noid_doc_def lookup_def)
  moreover have "field noid_after ''practice'' = Arr [] []"
    by (simp add: noid_after_def lookup_def)
  ultimately show ?thesis using loaded_noid ensure_noid by (simp add: lookup_def)
qed

section \<open>Export and save\<close>

lemma squeezes_Nil [simp]: "squeezes [] []"
  by (simp add: squeezes_def)

lemma squeezes_append: "squeezes a a' \<Longrightarrow> squeezes b b' \<Longrightarrow> squeezes (a @ b) (a' @ b')"
  by (simp add: squeezes_def)

lemma squeezes_plain: "plain t \<Longrightarrow> squeezes t t"
  unfolding squeezes_def by (induction t) (auto simp: plain_def)

lemma squeezes_blank: "blank t \<Longrightarrow> squeezes t []"
  unfolding squeezes_def by (induction t) (auto simp: blank_def is_ws_def)

lemma strip_in_quote: "strip_in (CHR 0x22 # cs) = CHR 0x22 # strip_out cs"
  by (cases cs) auto

lemma strip_in_other: "c \<noteq> CHR 0x22 \<Longrightarrow> c \<noteq> CHR 0x5C \<Longrightarrow> strip_in (c # cs) = c # strip_in cs"
  by (cases cs) auto

lemma digit_other: "n < 16 \<Longrightarrow> digit n \<noteq> CHR 0x22 \<and> digit n \<noteq> CHR 0x5C"
proof -
  assume "n < 16"
  then have "digit n \<in> set ''0123456789abcdef''"
    unfolding digit_def by (intro nth_mem) simp
  then show ?thesis by auto
qed

lemma strip_in_quote_char: "strip_in (quote_char c @ cs) = quote_char c @ strip_in cs"
proof -
  have d: "of_char c < (32::nat) \<Longrightarrow> (of_char c :: nat) div 16 < 16 \<and> (of_char c :: nat) mod 16 < 16"
    by auto
  show ?thesis
    using digit_other[of "of_char c div 16"] digit_other[of "of_char c mod 16"] d
    by (simp add: quote_char_def strip_in_other)
qed

lemma strip_in_body:
  "strip_in (concat (map quote_char s) @ CHR 0x22 # rest) = concat (map quote_char s) @ CHR 0x22 # strip_out rest"
  by (induction s) (simp_all add: strip_in_quote strip_in_quote_char)

lemma squeezes_quote: "squeezes (quote s) (quote s)"
  by (simp add: squeezes_def quote_def strip_in_body)

lemma squeezes_join:
  "list_all2 squeezes ts ts' \<Longrightarrow> blank w \<Longrightarrow> squeezes (join ('','' @ w) ts) (join '','' ts')"
proof (induction ts ts' rule: list_all2_induct)
  case Nil
  then show ?case by simp
next
  case (Cons t ts t' ts')
  show ?case
  proof (cases ts)
    case Nil
    with Cons.hyps show ?thesis by simp
  next
    case (Cons u us)
    with Cons.hyps(2) obtain u' us' where ts': "ts' = u' # us'" by (cases ts') auto
    have "squeezes ('','' @ w) '',''"
      using squeezes_append[OF squeezes_plain[of "'',''"] squeezes_blank[OF \<open>blank w\<close>]]
      by (simp add: plain_def is_ws_def)
    from squeezes_append[OF Cons.hyps(1) squeezes_append[OF this Cons.IH[OF \<open>blank w\<close>]]]
    show ?thesis by (simp add: Cons ts')
  qed
qed

lemma squeezes_wrap:
  assumes "list_all2 squeezes ts ts'" "blank gap" "blank stepback" "plain l" "plain r"
  shows "squeezes (wrap gap stepback l r ts) (wrap [] stepback' l r ts')"
proof (cases "ts = []")
  case True
  with assms(1) have "ts' = []" by simp
  with True show ?thesis
    using squeezes_append[OF squeezes_plain[OF assms(4)] squeezes_plain[OF assms(5)]]
    by (simp add: wrap_def)
next
  case False
  with assms(1) have ne: "ts' \<noteq> []" by auto
  show ?thesis
  proof (cases "gap = []")
    case True
    have "squeezes (join ('','' @ []) ts) (join '','' ts')"
      by (rule squeezes_join[OF assms(1)]) (simp add: blank_def)
    from squeezes_append[OF squeezes_plain[OF assms(4)] squeezes_append[OF this squeezes_plain[OF assms(5)]]]
    show ?thesis using False ne True by (simp add: wrap_def)
  next
    case g: False
    have b1: "blank ([CHR 0x0A] @ stepback @ gap)" "blank ([CHR 0x0A] @ stepback)"
      using assms(2,3) by (auto simp: blank_def is_ws_def)
    have j: "squeezes (join ('','' @ [CHR 0x0A] @ stepback @ gap) ts) (join '','' ts')"
      by (rule squeezes_join[OF assms(1) b1(1)])
    from squeezes_append[OF squeezes_plain[OF assms(4)]
          squeezes_append[OF squeezes_blank[OF b1(1)]
            squeezes_append[OF j squeezes_append[OF squeezes_blank[OF b1(2)] squeezes_plain[OF assms(5)]]]]]
    show ?thesis using False ne g by (simp add: wrap_def Let_def)
  qed
qed

lemma ser_squeezes:
  "(\<forall>r. plain (fmt r)) \<Longrightarrow> blank gap \<Longrightarrow> blank ind \<Longrightarrow>
     rel_option squeezes (ser fmt gap ind v) (ser fmt [] ind' v)"
  "(\<forall>r. plain (fmt r)) \<Longrightarrow> blank gap \<Longrightarrow> blank ind \<Longrightarrow>
     list_all2 squeezes (ser_elems fmt gap ind xs) (ser_elems fmt [] ind' xs)"
  "(\<forall>r. plain (fmt r)) \<Longrightarrow> blank gap \<Longrightarrow> blank ind \<Longrightarrow>
     list_all2 squeezes (ser_members fmt gap ind ps) (ser_members fmt [] ind' ps)"
proof (induction fmt gap ind v and fmt gap ind xs and fmt gap ind ps
    arbitrary: ind' and ind' and ind' rule: ser_ser_elems_ser_members.induct)
  case (1 fmt gap ind)
  then show ?case by simp
next
  case (2 fmt gap ind)
  then show ?case by (simp add: squeezes_plain plain_def is_ws_def)
next
  case (3 fmt gap ind b)
  then show ?case by (simp add: squeezes_plain plain_def is_ws_def)
next
  case (4 fmt gap ind r)
  then show ?case by (simp add: squeezes_plain)
next
  case (5 fmt gap ind s)
  then show ?case by (simp add: squeezes_quote)
next
  case (6 fmt gap ind xs ps)
  have "blank (ind @ gap)" using "6.prems" by (auto simp: blank_def)
  with "6.IH" "6.prems" have "list_all2 squeezes (ser_elems fmt gap (ind @ gap) xs) (ser_elems fmt [] (ind' @ []) xs)"
    by blast
  then show ?case
    using "6.prems" by (simp add: squeezes_wrap plain_def is_ws_def)
next
  case (7 fmt gap ind ps)
  have "blank (ind @ gap)" using "7.prems" by (auto simp: blank_def)
  with "7.IH" "7.prems" have "list_all2 squeezes (ser_members fmt gap (ind @ gap) ps) (ser_members fmt [] (ind' @ []) ps)"
    by blast
  then show ?case
    using "7.prems" by (simp add: squeezes_wrap plain_def is_ws_def)
next
  case (8 fmt gap ind)
  then show ?case by simp
next
  case (9 fmt gap ind x xs)
  have n: "squeezes ''null'' ''null''" by (rule squeezes_plain) (simp add: plain_def is_ws_def)
  from "9.IH" "9.prems" have r: "rel_option squeezes (ser fmt gap ind x) (ser fmt [] ind' x)"
    and l: "list_all2 squeezes (ser_elems fmt gap ind xs) (ser_elems fmt [] ind' xs)"
    by blast+
  from r l n show ?case
    by (cases "ser fmt gap ind x"; cases "ser fmt [] ind' x") simp_all
next
  case (10 fmt gap ind)
  then show ?case by simp
next
  case (11 fmt gap ind kv ps)
  have sep: "squeezes ('':'' @ (if gap = [] then [] else '' '')) '':''"
    using squeezes_append[OF squeezes_plain[of "'':''"] squeezes_blank[of "if gap = [] then [] else '' ''"]]
    by (simp add: plain_def blank_def is_ws_def)
  from "11.IH"(1) "11.prems" have r: "rel_option squeezes (ser fmt gap ind (snd kv)) (ser fmt [] ind' (snd kv))"
    by blast
  show ?case
  proof (cases "ser fmt gap ind (snd kv)")
    case None
    with r have n': "ser fmt [] ind' (snd kv) = None"
      by (cases "ser fmt [] ind' (snd kv)") simp_all
    from "11.IH"(2)[OF None "11.prems"] show ?thesis by (simp add: None n')
  next
    case (Some t)
    with r obtain t' where s': "ser fmt [] ind' (snd kv) = Some t'" and tt: "squeezes t t'"
      by (cases "ser fmt [] ind' (snd kv)") simp_all
    from squeezes_append[OF squeezes_quote[of "fst kv"] squeezes_append[OF sep tt]]
    have "squeezes (quote (fst kv) @ '':'' @ (if gap = [] then [] else '' '') @ t) (quote (fst kv) @ '':'' @ t')"
      by simp
    with "11.IH"(3)[OF Some "11.prems"] show ?thesis by (simp add: Some s')
  qed
qed

lemma stringify_squeezes:
  assumes "\<forall>r. plain (fmt r)" "blank gap"
  shows "strip_out (stringify fmt gap v) = stringify fmt [] v"
proof -
  have b: "blank []" by (simp add: blank_def)
  from ser_squeezes(1)[OF assms b, of v "[]"]
  show ?thesis
  proof (cases "ser fmt gap [] v"; cases "ser fmt [] [] v")
    fix t t' assume s: "ser fmt gap [] v = Some t" "ser fmt [] [] v = Some t'"
    with ser_squeezes(1)[OF assms b, of v "[]"] have "squeezes t t'" by simp
    then have "strip_out (t @ []) = t' @ strip_out []" unfolding squeezes_def by blast
    then show ?thesis by (simp add: stringify_def s)
  next
    assume s: "ser fmt gap [] v = None" "ser fmt [] [] v = None"
    have "squeezes ''undefined'' ''undefined''" by (rule squeezes_plain) (simp add: plain_def is_ws_def)
    then have "strip_out (''undefined'' @ []) = ''undefined'' @ strip_out []" unfolding squeezes_def by blast
    then show ?thesis by (simp add: stringify_def s)
  qed (use ser_squeezes(1)[OF assms b, of v "[]"] in simp_all)
qed


lemma digit_plain: "n < 16 \<Longrightarrow> plain [digit n]"
proof -
  assume "n < 16"
  then have "digit n \<in> set ''0123456789abcdef''"
    unfolding digit_def by (intro nth_mem) simp
  then show ?thesis by (auto simp: plain_def is_ws_def)
qed

lemma plain_append: "plain a \<Longrightarrow> plain b \<Longrightarrow> plain (a @ b)"
  by (auto simp: plain_def)

lemma plain_show_nat: "plain (show_nat n)"
proof (induction n rule: show_nat.induct)
  case (1 n)
  show ?case
  proof (cases "n < 10")
    case True
    then show ?thesis by (subst show_nat.simps) (simp add: digit_plain)
  next
    case False
    have "n mod 10 < 16" by (rule less_trans[OF mod_less_divisor]) simp_all
    with False "1.IH" show ?thesis
      by (subst show_nat.simps) (simp add: plain_append digit_plain)
  qed
qed

lemma plain_sample_fmt: "\<forall>r. plain (sample_fmt r)"
  by (simp add: sample_fmt_def plain_show_nat)

text \<open>
  C1, as the code has it. Export writes \<^verbatim>\<open>JSON.stringify(state, null, 2)\<close> and \<^verbatim>\<open>saveState\<close>
  stores \<^verbatim>\<open>JSON.stringify(state)\<close>: the same document, once indented by two spaces and
  once compact. For every document the exported text without the white space between its
  tokens is the text that \<^verbatim>\<open>saveState\<close> stores.
\<close>

theorem export_is_indented_save:
  "(\<forall>r. plain (fmt r)) \<Longrightarrow>
     downloads (exportBtn_click fmt w) = downloads w @ [stringify fmt ''  '' (state w)]
     \<and> slot (saveState fmt w) = Some (stringify fmt [] (state w))
     \<and> strip_out (stringify fmt ''  '' (state w)) = stringify fmt [] (state w)
     \<and> slot (saveState fmt w) = Some (strip_out (last (downloads (exportBtn_click fmt w))))"
proof -
  assume p: "\<forall>r. plain (fmt r)"
  have "blank ''  ''" by (simp add: blank_def is_ws_def)
  from stringify_squeezes[OF p this, of "state w"] show ?thesis
    by (simp add: exportBtn_click_def saveState_def)
qed

theorem export_is_indented_save_witness:
  "slot (saveState sample_fmt (sample_world two_profiles_doc))
     = Some (strip_out (last (downloads (exportBtn_click sample_fmt (sample_world two_profiles_doc)))))"
  using export_is_indented_save [OF plain_sample_fmt, of "sample_world two_profiles_doc"]
  by simp

text \<open>The two texts of the default document differ from the second character on.\<close>

theorem export_differs_counterexample:
  "slot (saveState sample_fmt (sample_world (defaultState sample_env 0)))
     \<noteq> Some (last (downloads (exportBtn_click sample_fmt (sample_world (defaultState sample_env 0)))))
   \<and> take 2 (stringify sample_fmt [] (defaultState sample_env 0)) = [CHR ''{'', CHR 0x22]
   \<and> take 2 (stringify sample_fmt ''  '' (defaultState sample_env 0)) = [CHR ''{'', CHR 0x0A]"
  by code_simp

end
